theory Spec2Isabelle
  imports Main "HOL-Library.Word"
begin

section \<open>JavaScript values\<close>

text \<open>
  The password manager of \<^verbatim>\<open>src/password/index.js\<close> keeps plain JavaScript objects.
  A value is one of the JSON shapes plus \<^verbatim>\<open>undefined\<close>; an object is a map from
  property names to values.  Strings are sequences of code units below 256
  (Latin-1), the range on which \<^verbatim>\<open>btoa\<close> is defined; numbers are integers.
\<close>

type_synonym byte = "8 word"

datatype jsval =
    Undefined
  | Null
  | Bool bool
  | Num int
  | Str string
  | Arr "jsval list"
  | Obj "string \<Rightarrow> jsval option"

type_synonym obj = "string \<Rightarrow> jsval option"

text \<open>Property read \<^verbatim>\<open>o.k\<close>: a missing property reads as \<^verbatim>\<open>undefined\<close>.\<close>

definition prop_get :: "obj \<Rightarrow> string \<Rightarrow> jsval" where
  "prop_get ob k = (case ob k of None \<Rightarrow> Undefined | Some v \<Rightarrow> v)"

text \<open>JavaScript truthiness and the operator \<^verbatim>\<open>a || b\<close>.\<close>

fun truthy :: "jsval \<Rightarrow> bool" where
  "truthy Undefined = False"
| "truthy Null = False"
| "truthy (Bool b) = b"
| "truthy (Num n) = (n \<noteq> 0)"
| "truthy (Str s) = (s \<noteq> [])"
| "truthy (Arr xs) = True"
| "truthy (Obj ob) = True"

definition or_else :: "jsval \<Rightarrow> jsval \<Rightarrow> jsval" where
  "or_else a b = (if truthy a then a else b)"

text \<open>
  The errors the code raises.  The source throws \<^verbatim>\<open>Error\<close> objects told apart by
  their message; the specification names them.
  \<^item> \<open>WeakPasswordError\<close>: \<^verbatim>\<open>'Master password must be at least 8 characters'\<close>;
  \<^item> \<open>DecryptionError\<close>: \<^verbatim>\<open>'Decryption failed - incorrect password'\<close>;
  \<^item> \<open>InvalidCharacterError\<close>: the \<^verbatim>\<open>DOMException\<close> of \<^verbatim>\<open>atob\<close>;
  \<^item> \<open>TypeError\<close>: a property read on \<^verbatim>\<open>null\<close>/\<^verbatim>\<open>undefined\<close>, or a call of a
    method the value does not have;
  \<^item> \<open>RangeError\<close>: a call with more arguments than the engine allows
    (\<^verbatim>\<open>String.fromCharCode(...bytes)\<close> passes one argument for every byte);
  \<^item> \<open>IllTypedVault\<close>: not an exception of the source.  The model keeps the record
    list and the category list typed; a decrypted payload whose truthy
    \<^verbatim>\<open>passwords\<close> is not an array of objects, or whose truthy \<^verbatim>\<open>categories\<close> is
    not an array of strings, leaves the typed model here.
\<close>

datatype error =
    WeakPasswordError
  | DecryptionError
  | InvalidCharacterError
  | TypeError
  | RangeError
  | IllTypedVault

section \<open>Strings, bytes and base64\<close>

text \<open>\<^verbatim>\<open>String.fromCharCode(...bytes)\<close> and \<^verbatim>\<open>Uint8Array.from(s, c => c.charCodeAt(0))\<close>.\<close>

definition fromCharCode :: "byte list \<Rightarrow> string" where
  "fromCharCode bs = map (\<lambda>b. char_of (unat b)) bs"

definition charCodes :: "string \<Rightarrow> byte list" where
  "charCodes s = map (\<lambda>c. of_nat (of_char c)) s"

text \<open>
  \<^verbatim>\<open>btoa\<close> and \<^verbatim>\<open>atob\<close> are the browser's base64 functions (RFC 4648 encoding, and
  the forgiving decoder of the WHATWG Infra standard: ASCII whitespace is dropped,
  padding is optional, the unused low bits of a final sextet are discarded, any
  other character is an error).
\<close>

definition b64_alphabet :: string where
  "b64_alphabet = ''ABCDEFGHIJKLMNOPQRSTUVWXYZabcdefghijklmnopqrstuvwxyz0123456789+/''"

definition b64chr :: "nat \<Rightarrow> char" where
  "b64chr i = b64_alphabet ! i"

definition b64val :: "char \<Rightarrow> nat option" where
  "b64val c = (let n = (of_char c :: nat) in
     if 65 \<le> n \<and> n \<le> 90 then Some (n - 65)
     else if 97 \<le> n \<and> n \<le> 122 then Some (n - 71)
     else if 48 \<le> n \<and> n \<le> 57 then Some (n + 4)
     else if n = 43 then Some 62
     else if n = 47 then Some 63
     else None)"

fun b64_sextets :: "nat list \<Rightarrow> nat list" where
  "b64_sextets (a # b # c # r) =
     [a div 4, (a mod 4) * 16 + b div 16, (b mod 16) * 4 + c div 64, c mod 64] @ b64_sextets r"
| "b64_sextets [a, b] = [a div 4, (a mod 4) * 16 + b div 16, (b mod 16) * 4]"
| "b64_sextets [a] = [a div 4, (a mod 4) * 16]"
| "b64_sextets [] = []"

definition btoa :: "string \<Rightarrow> string" where
  "btoa s = map b64chr (b64_sextets (map of_char s))
              @ replicate ((3 - length s mod 3) mod 3) (CHR ''='')"

definition is_ascii_whitespace :: "char \<Rightarrow> bool" where
  "is_ascii_whitespace c = ((of_char c :: nat) \<in> {9, 10, 12, 13, 32})"

definition strip_padding :: "string \<Rightarrow> string" where
  "strip_padding d =
     (if d \<noteq> [] \<and> last d = CHR ''='' then
        (if butlast d \<noteq> [] \<and> last (butlast d) = CHR ''='' then butlast (butlast d)
         else butlast d)
      else d)"

fun b64_octets :: "nat list \<Rightarrow> nat list" where
  "b64_octets (a # b # c # d # r) =
     [a * 4 + b div 16, (b mod 16) * 16 + c div 4, (c mod 4) * 64 + d] @ b64_octets r"
| "b64_octets [a, b, c] = [a * 4 + b div 16, (b mod 16) * 16 + c div 4]"
| "b64_octets [a, b] = [a * 4 + b div 16]"
| "b64_octets [a] = []"
| "b64_octets [] = []"

definition atob :: "string \<Rightarrow> string option" where
  "atob s =
     (let d = filter (\<lambda>c. \<not> is_ascii_whitespace c) s;
          d' = (if length d mod 4 = 0 then strip_padding d else d)
      in if length d' mod 4 = 1 then None
         else (case those (map b64val d') of
                 None \<Rightarrow> None
               | Some vs \<Rightarrow> Some (map char_of (b64_octets vs))))"

text \<open>
  \<^verbatim>\<open>String.prototype.toLowerCase\<close> on Latin-1 strings maps \<open>A\<close>--\<open>Z\<close> and the
  accented capitals \<open>0xC0\<close>--\<open>0xDE\<close> (without the multiplication sign \<open>0xD7\<close>)
  to the letter 32 places on, and \<^verbatim>\<open>String.prototype.includes\<close> is substring search.
\<close>

definition lower_char :: "char \<Rightarrow> char" where
  "lower_char c = (let n = (of_char c :: nat) in
     if (65 \<le> n \<and> n \<le> 90) \<or> (192 \<le> n \<and> n \<le> 222 \<and> n \<noteq> 215)
     then char_of (n + 32) else c)"

definition toLowerCase :: "string \<Rightarrow> string" where
  "toLowerCase s = map lower_char s"

fun str_includes :: "string \<Rightarrow> string \<Rightarrow> bool" where
  "str_includes [] t = (t = [])"
| "str_includes (c # s) t = (take (length t) (c # s) = t \<or> str_includes s t)"

section \<open>The platform\<close>

text \<open>
  The code calls the browser for everything cryptographic and for JSON and UTF-8:
  \<^verbatim>\<open>TextEncoder\<close>, \<^verbatim>\<open>TextDecoder\<close>, \<^verbatim>\<open>JSON.stringify\<close>, \<^verbatim>\<open>JSON.parse\<close> and
  \<^verbatim>\<open>window.crypto.subtle\<close>.  None of it is code of the repository, so the model takes
  these functions as a parameter.  \<open>'k\<close> is the type of the opaque \<^verbatim>\<open>CryptoKey\<close>.
  \<^item> \<open>json_stringify\<close> is \<open>None\<close> where \<^verbatim>\<open>JSON.stringify\<close> returns \<^verbatim>\<open>undefined\<close>;
  \<^item> \<open>json_parse\<close> is \<open>None\<close> where \<^verbatim>\<open>JSON.parse\<close> throws a \<^verbatim>\<open>SyntaxError\<close>;
  \<^item> \<open>pbkdf2_sha256 pw salt n\<close> is \<^verbatim>\<open>importKey('raw', pw, 'PBKDF2', ...)\<close> followed by
    \<^verbatim>\<open>deriveKey\<close> with hash SHA-256 and \<open>n\<close> iterations to a 256-bit AES-GCM key;
  \<^item> \<open>aes_gcm_decrypt\<close> is \<open>None\<close> where \<^verbatim>\<open>subtle.decrypt\<close> rejects;
  \<^item> \<open>max_arguments\<close> is the largest number of arguments the engine accepts in one
    call; it is not fixed by the language (about 125000 in V8).
\<close>

record 'k platform =
  utf8_encode :: "string \<Rightarrow> byte list"
  utf8_decode :: "byte list \<Rightarrow> string"
  json_stringify :: "jsval \<Rightarrow> string option"
  json_parse :: "string \<Rightarrow> jsval option"
  pbkdf2_sha256 :: "byte list \<Rightarrow> byte list \<Rightarrow> nat \<Rightarrow> 'k"
  aes_gcm_encrypt :: "'k \<Rightarrow> byte list \<Rightarrow> byte list \<Rightarrow> byte list"
  aes_gcm_decrypt :: "'k \<Rightarrow> byte list \<Rightarrow> byte list \<Rightarrow> byte list option"
  sha256 :: "byte list \<Rightarrow> byte list"
  max_arguments :: nat

section \<open>CryptoManager\<close>

text \<open>
  \<^verbatim>\<open>String.fromCharCode(...bytes)\<close> spreads the array into the arguments of one call:
  with more bytes than the engine accepts arguments it raises a \<^verbatim>\<open>RangeError\<close>.
\<close>

definition fromCharCode_spread :: "'k platform \<Rightarrow> byte list \<Rightarrow> error + string" where
  "fromCharCode_spread pf bs =
     (if max_arguments pf < length bs then Inl RangeError else Inr (fromCharCode bs))"

definition deriveKey :: "'k platform \<Rightarrow> string \<Rightarrow> byte list \<Rightarrow> 'k" where
  "deriveKey pf password salt = pbkdf2_sha256 pf (utf8_encode pf password) salt 100000"

text \<open>
  \<open>salt\<close> and \<open>iv\<close> are the two results of \<^verbatim>\<open>getRandomValues\<close> (16 and 12 bytes).
  \<^verbatim>\<open>encoder.encode(undefined)\<close> is the encoding of the empty string.
\<close>

definition encrypt ::
    "'k platform \<Rightarrow> jsval \<Rightarrow> string \<Rightarrow> byte list \<Rightarrow> byte list \<Rightarrow> error + string" where
  "encrypt pf data password salt iv =
     (let key = deriveKey pf password salt;
          encrypted = aes_gcm_encrypt pf key iv
            (utf8_encode pf (case json_stringify pf data of None \<Rightarrow> [] | Some s \<Rightarrow> s));
          combined = salt @ iv @ encrypted
      in case fromCharCode_spread pf combined of
           Inl e \<Rightarrow> Inl e
         | Inr bin \<Rightarrow> Inr (btoa bin))"

text \<open>
  \<^verbatim>\<open>atob\<close> and \<^verbatim>\<open>deriveKey\<close> run before the \<^verbatim>\<open>try\<close> block; the \<^verbatim>\<open>catch\<close> turns
  every failure of \<^verbatim>\<open>subtle.decrypt\<close> and of \<^verbatim>\<open>JSON.parse\<close> into the one error.
  \<^verbatim>\<open>Uint8Array.from(atob(...), c => c.charCodeAt(0))\<close> spreads nothing: a blob of any
  length is read.
\<close>

definition decrypt :: "'k platform \<Rightarrow> string \<Rightarrow> string \<Rightarrow> error + jsval" where
  "decrypt pf encryptedData password =
     (case atob encryptedData of
        None \<Rightarrow> Inl InvalidCharacterError
      | Some bin \<Rightarrow>
          (let combined = charCodes bin;
               salt = take 16 combined;
               iv = take 12 (drop 16 combined);
               encrypted = drop 28 combined;
               key = deriveKey pf password salt
           in case aes_gcm_decrypt pf key iv encrypted of
                None \<Rightarrow> Inl DecryptionError
              | Some decrypted \<Rightarrow>
                  (case json_parse pf (utf8_decode pf decrypted) of
                     None \<Rightarrow> Inl DecryptionError
                   | Some v \<Rightarrow> Inr v)))"

definition hashPassword :: "'k platform \<Rightarrow> string \<Rightarrow> error + string" where
  "hashPassword pf password =
     (case fromCharCode_spread pf (sha256 pf (utf8_encode pf password)) of
        Inl e \<Rightarrow> Inl e
      | Inr bin \<Rightarrow> Inr (btoa bin))"

section \<open>PasswordManager\<close>

text \<open>
  The fields of the class, and the part of the browser the methods touch:
  \<open>localStorage\<close>, the set \<open>timers\<close> of pending \<^verbatim>\<open>setTimeout\<close> handles and the
  \<open>screen\<close> that \<^verbatim>\<open>showSetupScreen\<close>, \<^verbatim>\<open>showLoginScreen\<close> and \<^verbatim>\<open>showMainApp\<close> make
  visible.  \<open>masterPassword = None\<close> and \<open>sessionTimeout = None\<close> are \<^verbatim>\<open>null\<close>.
  Rendering and the activity listeners of \<^verbatim>\<open>startSessionTimeout\<close> are left out.
\<close>

datatype screen = SetupScreen | LoginScreen | MainApp

record manager =
  masterPassword :: "string option"
  passwords :: "obj list"
  categories :: "string list"
  sessionTimeout :: "nat option"
  isLocked :: bool
  localStorage :: "string \<Rightarrow> string option"
  timers :: "nat set"
  screen :: screen

definition constructor :: manager where
  "constructor =
     \<lparr> masterPassword = None,
       passwords = [],
       categories = [''Personal'', ''Work'', ''Banking'', ''Social Media'', ''Shopping'', ''Other''],
       sessionTimeout = None,
       isLocked = True,
       localStorage = Map.empty,
       timers = {},
       screen = SetupScreen \<rparr>"

definition showLoginScreen :: "manager \<Rightarrow> manager" where
  "showLoginScreen st = st\<lparr>screen := LoginScreen\<rparr>"

definition showMainApp :: "manager \<Rightarrow> manager" where
  "showMainApp st = st\<lparr>screen := MainApp\<rparr>"

text \<open>A timer handle is a positive integer, so a stored handle is truthy.\<close>

definition clearSessionTimeout :: "manager \<Rightarrow> manager" where
  "clearSessionTimeout st =
     (case sessionTimeout st of
        None \<Rightarrow> st
      | Some t \<Rightarrow> st\<lparr>timers := timers st - {t}, sessionTimeout := None\<rparr>)"

text \<open>\<open>tid\<close> is the handle \<^verbatim>\<open>setTimeout\<close> returns.\<close>

definition startSessionTimeout :: "nat \<Rightarrow> manager \<Rightarrow> manager" where
  "startSessionTimeout tid st =
     (let st1 = clearSessionTimeout st;
          st2 = clearSessionTimeout st1
      in st2\<lparr>sessionTimeout := Some tid, timers := insert tid (timers st2)\<rparr>)"

definition lock :: "manager \<Rightarrow> manager" where
  "lock st =
     showLoginScreen
       (clearSessionTimeout (st\<lparr>isLocked := True, masterPassword := None, passwords := []\<rparr>))"

text \<open>
  \<^verbatim>\<open>encoder.encode(this.masterPassword)\<close> converts its argument to a string: the
  \<^verbatim>\<open>null\<close> of a locked manager becomes the text \<^verbatim>\<open>null\<close>.
\<close>

definition usv_string :: "string option \<Rightarrow> string" where
  "usv_string p = (case p of None \<Rightarrow> ''null'' | Some s \<Rightarrow> s)"

definition vault_payload :: "manager \<Rightarrow> jsval" where
  "vault_payload st =
     Obj [''passwords'' \<mapsto> Arr (map Obj (passwords st)),
          ''categories'' \<mapsto> Arr (map Str (categories st))]"

text \<open>When \<^verbatim>\<open>encrypt\<close> raises, \<^verbatim>\<open>localStorage.setItem\<close> is not reached.\<close>

definition saveData ::
    "'k platform \<Rightarrow> byte list \<Rightarrow> byte list \<Rightarrow> manager \<Rightarrow> (error + unit) \<times> manager" where
  "saveData pf salt iv st =
     (case encrypt pf (vault_payload st) (usv_string (masterPassword st)) salt iv of
        Inl e \<Rightarrow> (Inl e, st)
      | Inr encrypted \<Rightarrow>
          (Inr (), st\<lparr>localStorage := (localStorage st)(''encryptedData'' \<mapsto> encrypted)\<rparr>))"

definition setupMasterPassword ::
    "'k platform \<Rightarrow> string \<Rightarrow> byte list \<Rightarrow> byte list \<Rightarrow> nat \<Rightarrow> manager \<Rightarrow> (error + unit) \<times> manager" where
  "setupMasterPassword pf password salt iv tid st =
     (if length password < 8 then (Inl WeakPasswordError, st)
      else
        (case hashPassword pf password of
           Inl e \<Rightarrow> (Inl e, st)
         | Inr hash \<Rightarrow>
             (let st1 = st\<lparr>localStorage := (localStorage st)(''masterPasswordHash'' \<mapsto> hash)\<rparr>;
                  st2 = st1\<lparr>masterPassword := Some password, isLocked := False\<rparr>
              in case saveData pf salt iv st2 of
                   (Inl e, st3) \<Rightarrow> (Inl e, st3)
                 | (Inr u, st3) \<Rightarrow> (Inr (), startSessionTimeout tid (showMainApp st3)))))"

text \<open>
  \<^verbatim>\<open>data.passwords\<close> on the decrypted value: a \<^verbatim>\<open>TypeError\<close> on \<^verbatim>\<open>null\<close> and
  \<^verbatim>\<open>undefined\<close>, the property of an object, and \<^verbatim>\<open>undefined\<close> on every other value
  (no prototype has a property \<^verbatim>\<open>passwords\<close> or \<^verbatim>\<open>categories\<close>).
\<close>

fun member_of :: "jsval \<Rightarrow> string \<Rightarrow> error + jsval" where
  "member_of Undefined k = Inl TypeError"
| "member_of Null k = Inl TypeError"
| "member_of (Obj ob) k = Inr (prop_get ob k)"
| "member_of v k = Inr Undefined"

fun as_object :: "jsval \<Rightarrow> obj option" where
  "as_object (Obj ob) = Some ob"
| "as_object v = None"

fun as_string :: "jsval \<Rightarrow> string option" where
  "as_string (Str s) = Some s"
| "as_string v = None"

fun as_records :: "jsval \<Rightarrow> obj list option" where
  "as_records (Arr xs) = those (map as_object xs)"
| "as_records v = None"

fun as_names :: "jsval \<Rightarrow> string list option" where
  "as_names (Arr xs) = those (map as_string xs)"
| "as_names v = None"

definition loadData :: "'k platform \<Rightarrow> manager \<Rightarrow> (error + unit) \<times> manager" where
  "loadData pf st =
     (case localStorage st ''encryptedData'' of
        None \<Rightarrow> (Inr (), st)
      | Some encrypted \<Rightarrow>
          if encrypted = [] then (Inr (), st)
          else
            (case decrypt pf encrypted (usv_string (masterPassword st)) of
               Inl e \<Rightarrow> (Inl e, st)
             | Inr data \<Rightarrow>
                 (case member_of data ''passwords'' of
                    Inl e \<Rightarrow> (Inl e, st)
                  | Inr dp \<Rightarrow>
                      (case as_records (or_else dp (Arr [])) of
                         None \<Rightarrow> (Inl IllTypedVault, st)
                       | Some ps \<Rightarrow>
                           (let st1 = st\<lparr>passwords := ps\<rparr> in
                            case member_of data ''categories'' of
                              Inl e \<Rightarrow> (Inl e, st1)
                            | Inr dc \<Rightarrow>
                                if truthy dc then
                                  (case as_names dc of
                                     None \<Rightarrow> (Inl IllTypedVault, st1)
                                   | Some cs \<Rightarrow> (Inr (), st1\<lparr>categories := cs\<rparr>))
                                else (Inr (), st1))))))"

text \<open>
  \<open>idstr\<close> is \<^verbatim>\<open>Date.now().toString()\<close>; \<open>created\<close> and \<open>modified\<close> are the two
  readings \<^verbatim>\<open>new Date().toISOString()\<close>.
\<close>

definition new_record :: "obj \<Rightarrow> string \<Rightarrow> string \<Rightarrow> string \<Rightarrow> obj" where
  "new_record passwordData idstr created modified =
     [''id'' \<mapsto> Str idstr,
      ''name'' \<mapsto> prop_get passwordData ''name'',
      ''website'' \<mapsto> or_else (prop_get passwordData ''website'') (Str []),
      ''username'' \<mapsto> or_else (prop_get passwordData ''username'') (Str []),
      ''password'' \<mapsto> prop_get passwordData ''password'',
      ''category'' \<mapsto> or_else (prop_get passwordData ''category'') (Str ''Other''),
      ''notes'' \<mapsto> or_else (prop_get passwordData ''notes'') (Str []),
      ''createdDate'' \<mapsto> Str created,
      ''lastModified'' \<mapsto> Str modified]"

definition addPassword ::
    "'k platform \<Rightarrow> obj \<Rightarrow> string \<Rightarrow> string \<Rightarrow> string \<Rightarrow> byte list \<Rightarrow> byte list \<Rightarrow> manager
      \<Rightarrow> (error + obj) \<times> manager" where
  "addPassword pf passwordData idstr created modified salt iv st =
     (let password = new_record passwordData idstr created modified;
          st1 = st\<lparr>passwords := password # passwords st\<rparr>
      in case saveData pf salt iv st1 of
           (Inl e, st2) \<Rightarrow> (Inl e, st2)
         | (Inr u, st2) \<Rightarrow> (Inr password, st2))"

fun findIndex :: "('a \<Rightarrow> bool) \<Rightarrow> 'a list \<Rightarrow> nat option" where
  "findIndex P [] = None"
| "findIndex P (x # xs) = (if P x then Some 0 else map_option Suc (findIndex P xs))"

text \<open>
  The object literal \<^verbatim>\<open>{...this.passwords[index], ...updates, lastModified: now}\<close>:
  later properties override earlier ones.
\<close>

definition updatePassword ::
    "'k platform \<Rightarrow> string \<Rightarrow> obj \<Rightarrow> string \<Rightarrow> byte list \<Rightarrow> byte list \<Rightarrow> manager
      \<Rightarrow> (error + unit) \<times> manager" where
  "updatePassword pf ident updates modified salt iv st =
     (case findIndex (\<lambda>p. prop_get p ''id'' = Str ident) (passwords st) of
        None \<Rightarrow> (Inr (), st)
      | Some index \<Rightarrow>
          (let merged = ((passwords st ! index) ++ updates)(''lastModified'' \<mapsto> Str modified);
               st1 = st\<lparr>passwords := (passwords st)[index := merged]\<rparr>
           in saveData pf salt iv st1))"

definition deletePassword ::
    "'k platform \<Rightarrow> string \<Rightarrow> byte list \<Rightarrow> byte list \<Rightarrow> manager \<Rightarrow> (error + unit) \<times> manager" where
  "deletePassword pf ident salt iv st =
     (let st1 = st\<lparr>passwords := filter (\<lambda>p. prop_get p ''id'' \<noteq> Str ident) (passwords st)\<rparr>
      in saveData pf salt iv st1)"

definition addCategory ::
    "'k platform \<Rightarrow> string \<Rightarrow> byte list \<Rightarrow> byte list \<Rightarrow> manager \<Rightarrow> (error + unit) \<times> manager" where
  "addCategory pf name salt iv st =
     (if name \<notin> set (categories st) then
        saveData pf salt iv (st\<lparr>categories := categories st @ [name]\<rparr>)
      else (Inr (), st))"

definition deleteCategory ::
    "'k platform \<Rightarrow> string \<Rightarrow> byte list \<Rightarrow> byte list \<Rightarrow> manager \<Rightarrow> (error + unit) \<times> manager" where
  "deleteCategory pf name salt iv st =
     (let moved = map (\<lambda>p. if prop_get p ''category'' = Str name
                            then p(''category'' \<mapsto> Str ''Other'') else p) (passwords st);
          st1 = st\<lparr>passwords := moved, categories := filter (\<lambda>c. c \<noteq> name) (categories st)\<rparr>
      in saveData pf salt iv st1)"

text \<open>
  \<^verbatim>\<open>p.name.toLowerCase().includes(lowerQuery)\<close> raises a \<^verbatim>\<open>TypeError\<close> unless the
  field is a string; the four tests are joined by \<^verbatim>\<open>||\<close>, which stops at the first
  that holds.
\<close>

definition field_includes :: "obj \<Rightarrow> string \<Rightarrow> string \<Rightarrow> error + bool" where
  "field_includes p k lowerQuery =
     (case prop_get p k of
        Str s \<Rightarrow> Inr (str_includes (toLowerCase s) lowerQuery)
      | _ \<Rightarrow> Inl TypeError)"

fun any_field :: "obj \<Rightarrow> string list \<Rightarrow> string \<Rightarrow> error + bool" where
  "any_field p [] lowerQuery = Inr False"
| "any_field p (k # ks) lowerQuery =
     (case field_includes p k lowerQuery of
        Inl e \<Rightarrow> Inl e
      | Inr True \<Rightarrow> Inr True
      | Inr False \<Rightarrow> any_field p ks lowerQuery)"

fun filter_raising :: "('a \<Rightarrow> error + bool) \<Rightarrow> 'a list \<Rightarrow> error + 'a list" where
  "filter_raising P [] = Inr []"
| "filter_raising P (x # xs) =
     (case P x of
        Inl e \<Rightarrow> Inl e
      | Inr b \<Rightarrow>
          (case filter_raising P xs of
             Inl e \<Rightarrow> Inl e
           | Inr ys \<Rightarrow> Inr (if b then x # ys else ys)))"

text \<open>\<open>category = None\<close> is a missing or \<^verbatim>\<open>null\<close> argument.\<close>

definition searchPasswords :: "manager \<Rightarrow> string \<Rightarrow> string option \<Rightarrow> error + obj list" where
  "searchPasswords st query category =
     (let results = passwords st;
          results = (case category of
                       None \<Rightarrow> results
                     | Some c \<Rightarrow>
                         if c \<noteq> [] \<and> c \<noteq> ''All''
                         then filter (\<lambda>p. prop_get p ''category'' = Str c) results
                         else results)
      in if query \<noteq> [] then
           filter_raising
             (\<lambda>p. any_field p [''name'', ''website'', ''username'', ''category''] (toLowerCase query))
             results
         else Inr results)"

section \<open>Specification-side definitions\<close>

text \<open>
  The invariant of the data model: the category of every record is a name of the
  category list.
\<close>

definition category_invariant :: "manager \<Rightarrow> bool" where
  "category_invariant st =
     (\<forall>p \<in> set (passwords st). \<exists>c \<in> set (categories st). prop_get p ''category'' = Str c)"

text \<open>
  Search as the specification words it.  A field contains the query as a
  case-insensitive substring when the lower-cased query occurs in the lower-cased field;
  the category filter restricts the result unless it is \<^verbatim>\<open>"All"\<close> or absent.
\<close>

definition ci_substring :: "string \<Rightarrow> jsval \<Rightarrow> bool" where
  "ci_substring query v =
     (\<exists>s pre post. v = Str s \<and> toLowerCase s = pre @ toLowerCase query @ post)"

definition spec_matches :: "string \<Rightarrow> obj \<Rightarrow> bool" where
  "spec_matches query p =
     (ci_substring query (prop_get p ''name'') \<or> ci_substring query (prop_get p ''website'')
      \<or> ci_substring query (prop_get p ''username'') \<or> ci_substring query (prop_get p ''category''))"

definition spec_in_category :: "string option \<Rightarrow> obj \<Rightarrow> bool" where
  "spec_in_category category p =
     (case category of
        None \<Rightarrow> True
      | Some c \<Rightarrow> c = ''All'' \<or> prop_get p ''category'' = Str c)"

definition spec_search :: "manager \<Rightarrow> string \<Rightarrow> string option \<Rightarrow> obj list" where
  "spec_search st query category =
     filter (\<lambda>p. spec_in_category category p \<and> spec_matches query p) (passwords st)"

text \<open>A record as the data model describes it: the four searched fields are strings.\<close>

definition text_fields :: "obj \<Rightarrow> bool" where
  "text_fields p =
     (\<exists>n w u c. prop_get p ''name'' = Str n \<and> prop_get p ''website'' = Str w
        \<and> prop_get p ''username'' = Str u \<and> prop_get p ''category'' = Str c)"

section \<open>What the cipher is assumed to guarantee\<close>



section \<open>Two small platforms and a small vault\<close>

text \<open>
  An instance of the platform on which the theorems below are applied to concrete
  inputs: the key is one byte, encryption adds the key to every byte and appends a
  16-byte tag made of the key, and the engine accepts 125000 arguments.  Its JSON
  functions write \<^verbatim>\<open>null\<close>, a string, the empty array, the empty object and a vault
  (every record field by field; only the length of that text matters below), and read
  back \<^verbatim>\<open>null\<close>, a string, the empty array and the empty object.
\<close>

definition demo_kdf :: "byte list \<Rightarrow> byte list \<Rightarrow> nat \<Rightarrow> byte" where
  "demo_kdf pw salt n = of_nat (length pw) + (case salt of [] \<Rightarrow> 0 | b # bs \<Rightarrow> b)"

definition demo_encrypt :: "byte \<Rightarrow> byte list \<Rightarrow> byte list \<Rightarrow> byte list" where
  "demo_encrypt k iv pt = map (\<lambda>b. b + k) pt @ replicate 16 k"

definition demo_decrypt :: "byte \<Rightarrow> byte list \<Rightarrow> byte list \<Rightarrow> byte list option" where
  "demo_decrypt k iv ct =
     (if 16 \<le> length ct \<and> drop (length ct - 16) ct = replicate 16 k
      then Some (map (\<lambda>b. b - k) (take (length ct - 16) ct)) else None)"

definition quoted :: "string \<Rightarrow> string" where
  "quoted s = CHR 0x22 # s @ [CHR 0x22]"

fun demo_field :: "jsval \<Rightarrow> string" where
  "demo_field (Str s) = quoted s"
| "demo_field v = ''null''"

definition record_keys :: "string list" where
  "record_keys = [''id'', ''name'', ''website'', ''username'', ''password'', ''category'',
                  ''notes'', ''createdDate'', ''lastModified'']"

fun demo_record :: "jsval \<Rightarrow> string" where
  "demo_record (Obj p) =
     ''{'' @ concat (map (\<lambda>k. quoted k @ '':'' @ demo_field (prop_get p k) @ '','') record_keys) @ ''}''"
| "demo_record v = ''null''"

fun demo_stringify :: "jsval \<Rightarrow> string option" where
  "demo_stringify Undefined = None"
| "demo_stringify Null = Some ''null''"
| "demo_stringify (Str s) = Some (quoted s)"
| "demo_stringify (Arr []) = Some ''[]''"
| "demo_stringify (Obj ob) =
     (case (ob ''passwords'', ob ''categories'') of
        (Some (Arr ps), Some (Arr cs)) \<Rightarrow>
          Some (''{passwords:['' @ concat (map demo_record ps)
                @ ''],categories:['' @ concat (map demo_field cs) @ '']}'')
      | _ \<Rightarrow> Some ''{}'')"
| "demo_stringify v = Some ''{}''"

definition demo_parse :: "string \<Rightarrow> jsval option" where
  "demo_parse s =
     (if s = ''null'' then Some Null
      else if s = ''[]'' then Some (Arr [])
      else if s = ''{}'' then Some (Obj Map.empty)
      else if 2 \<le> length s \<and> hd s = CHR 0x22 \<and> last s = CHR 0x22 then Some (Str (butlast (tl s)))
      else None)"

definition demo :: "byte platform" where
  "demo =
     \<lparr> utf8_encode = charCodes,
       utf8_decode = fromCharCode,
       json_stringify = demo_stringify,
       json_parse = demo_parse,
       pbkdf2_sha256 = demo_kdf,
       aes_gcm_encrypt = demo_encrypt,
       aes_gcm_decrypt = demo_decrypt,
       sha256 = (\<lambda>bs. bs),
       max_arguments = 125000 \<rparr>"

definition demo_salt :: "byte list" where
  "demo_salt = [1, 2, 3, 4, 5, 6, 7, 8, 9, 10, 11, 12, 13, 14, 15, 16]"

definition demo_iv :: "byte list" where
  "demo_iv = [21, 22, 23, 24, 25, 26, 27, 28, 29, 30, 31, 32]"

text \<open>
  The vault of the specification's scenario, with a second record: one made by
  \<^verbatim>\<open>addPassword\<close> from \<^verbatim>\<open>{name: "Example", password: "p@ss"}\<close>, one for a bank; the
  default categories and one more, unlocked, one pending timer.
\<close>

definition example_record :: obj where
  "example_record =
     new_record [''name'' \<mapsto> Str ''Example'', ''password'' \<mapsto> Str ''p@ss'']
       ''1700000000000'' ''2023-11-14T22:13:20.000Z'' ''2023-11-14T22:13:20.000Z''"

definition bank_record :: obj where
  "bank_record =
     new_record [''name'' \<mapsto> Str ''Savings'', ''website'' \<mapsto> Str ''MyBank.com'',
                 ''password'' \<mapsto> Str ''s3cret'', ''category'' \<mapsto> Str ''Banking'']
       ''1700000000001'' ''2023-11-14T22:13:20.001Z'' ''2023-11-14T22:13:20.001Z''"

definition example_vault :: manager where
  "example_vault =
     constructor\<lparr> masterPassword := Some ''CorrectHorse1'',
       passwords := [bank_record, example_record],
       categories := categories constructor @ [''Clinic''],
       sessionTimeout := Some 7, isLocked := False, timers := {7}, screen := MainApp \<rparr>"

text \<open>
  The example vault with a stored blob whose payload, the empty object, has neither
  \<^verbatim>\<open>passwords\<close> nor \<^verbatim>\<open>categories\<close>.
\<close>

definition empty_object_blob :: string where
  "empty_object_blob =
     (case encrypt demo (Obj Map.empty) ''CorrectHorse1'' demo_salt demo_iv of
        Inl e \<Rightarrow> []
      | Inr blob \<Rightarrow> blob)"

definition stored_vault :: manager where
  "stored_vault = example_vault\<lparr>localStorage := [''encryptedData'' \<mapsto> empty_object_blob]\<rparr>"

text \<open>
  A large vault: the state after \<^verbatim>\<open>addPassword\<close> on the example vault with notes of
  200000 characters.
\<close>

definition big_notes :: string where
  "big_notes = replicate 200000 (CHR ''x'')"

definition big_fields :: obj where
  "big_fields = [''name'' \<mapsto> Str ''Manual'', ''password'' \<mapsto> Str ''pw'', ''notes'' \<mapsto> Str big_notes]"

definition big_vault :: manager where
  "big_vault =
     snd (addPassword demo big_fields ''1700000000002'' ''2023-11-14T22:13:20.002Z''
            ''2023-11-14T22:13:20.002Z'' demo_salt demo_iv example_vault)"







section \<open>Facts about the helpers\<close>

lemma saveData_fields [simp]:
  "passwords (snd (saveData pf salt iv st)) = passwords st"
  "categories (snd (saveData pf salt iv st)) = categories st"
  "masterPassword (snd (saveData pf salt iv st)) = masterPassword st"
  "isLocked (snd (saveData pf salt iv st)) = isLocked st"
  "sessionTimeout (snd (saveData pf salt iv st)) = sessionTimeout st"
  "timers (snd (saveData pf salt iv st)) = timers st"
  "screen (snd (saveData pf salt iv st)) = screen st"
  by (simp_all add: saveData_def split: sum.split)

lemma vault_payload_saveData [simp]:
  "vault_payload (snd (saveData pf salt iv st)) = vault_payload st"
  by (simp add: vault_payload_def)

lemma saveData_memory:
  "(snd (saveData pf salt iv st))\<lparr>localStorage := ls\<rparr> = st\<lparr>localStorage := ls\<rparr>"
  by (simp add: saveData_def split: sum.split)

lemma saveData_result:
  "(case encrypt pf (vault_payload st) (usv_string (masterPassword st)) salt iv of
      Inl e \<Rightarrow> saveData pf salt iv st = (Inl e, st)
    | Inr blob \<Rightarrow>
        saveData pf salt iv st
          = (Inr (), st\<lparr>localStorage := (localStorage st)(''encryptedData'' \<mapsto> blob)\<rparr>))"
  by (simp add: saveData_def split: sum.split)

lemma addPassword_state:
  "snd (addPassword pf pd idstr created modified salt iv st) =
     snd (saveData pf salt iv (st\<lparr>passwords := new_record pd idstr created modified # passwords st\<rparr>))"
  by (simp add: addPassword_def Let_def split: prod.split sum.split)


lemma example_vault_simps:
  "passwords example_vault = [bank_record, example_record]"
  "categories example_vault =
     [''Personal'', ''Work'', ''Banking'', ''Social Media'', ''Shopping'', ''Other'', ''Clinic'']"
  "masterPassword example_vault = Some ''CorrectHorse1''"
  "sessionTimeout example_vault = Some 7"
  "timers example_vault = {7}"
  "isLocked example_vault = False"
  by (simp_all add: example_vault_def constructor_def)

lemma example_record_simps:
  "prop_get example_record ''category'' = Str ''Other''"
  "prop_get example_record ''id'' = Str ''1700000000000''"
  "prop_get example_record ''name'' = Str ''Example''"
  "prop_get example_record ''website'' = Str []"
  "prop_get example_record ''username'' = Str []"
  "prop_get example_record ''createdDate'' = Str ''2023-11-14T22:13:20.000Z''"
  by (simp_all add: example_record_def new_record_def prop_get_def or_else_def)

lemma bank_record_simps:
  "prop_get bank_record ''category'' = Str ''Banking''"
  "prop_get bank_record ''id'' = Str ''1700000000001''"
  "prop_get bank_record ''name'' = Str ''Savings''"
  "prop_get bank_record ''website'' = Str ''MyBank.com''"
  "prop_get bank_record ''username'' = Str []"
  "prop_get bank_record ''createdDate'' = Str ''2023-11-14T22:13:20.001Z''"
  by (simp_all add: bank_record_def new_record_def prop_get_def or_else_def)

lemma prop_get_upd: "prop_get (m(k \<mapsto> v)) k' = (if k' = k then v else prop_get m k')"
  by (simp add: prop_get_def)

lemma prop_get_empty: "prop_get Map.empty k = Undefined"
  by (simp add: prop_get_def)

lemma prop_get_add: "prop_get (m ++ u) k = (case u k of None \<Rightarrow> prop_get m k | Some v \<Rightarrow> v)"
  by (simp add: prop_get_def map_add_def split: option.split)

lemma findIndex_Some:
  "findIndex P xs = Some i \<Longrightarrow> i < length xs \<and> P (xs ! i) \<and> (\<forall>j<i. \<not> P (xs ! j))"
proof (induction xs arbitrary: i)
  case Nil
  then show ?case by simp
next
  case (Cons x xs)
  show ?case
  proof (cases "P x")
    case True
    with Cons.prems show ?thesis by simp
  next
    case False
    with Cons.prems obtain k where k: "findIndex P xs = Some k" "i = Suc k"
      by auto
    from Cons.IH [OF k(1)] False k(2) show ?thesis
      by (auto simp: less_Suc_eq_0_disj)
  qed
qed

lemma findIndex_None: "findIndex P xs = None \<longleftrightarrow> (\<forall>x \<in> set xs. \<not> P x)"
  by (induction xs) auto

section \<open>Category deletion\<close>

text \<open>
  Claim C4.  For every category name \<open>name\<close> and every record whose category is
  \<open>name\<close> (the record at position \<open>i\<close> of the list), after \<^verbatim>\<open>deleteCategory(name)\<close>
  the list has at position \<open>i\<close> that same record with its category set to the fallback
  \<^verbatim>\<open>'Other'\<close> and nothing else changed; the records of other categories are untouched;
  the category list is the old one without \<open>name\<close>, so \<open>name\<close> is absent from it.  This
  holds whether or not the vault could then be stored: the call returns what
  \<^verbatim>\<open>saveData\<close> returns, and the blob is replaced only when \<^verbatim>\<open>encrypt\<close> made one.
\<close>

theorem deleteCategory_reassigns:
  assumes "i < length (passwords st)"
      and "prop_get (passwords st ! i) ''category'' = Str name"
      and "st' = snd (deleteCategory pf name salt iv st)"
  shows "passwords st' ! i = (passwords st ! i)(''category'' \<mapsto> Str ''Other'')
       \<and> prop_get (passwords st' ! i) ''category'' = Str ''Other''
       \<and> length (passwords st') = length (passwords st)
       \<and> (\<forall>j < length (passwords st).
             prop_get (passwords st ! j) ''category'' \<noteq> Str name \<longrightarrow> passwords st' ! j = passwords st ! j)
       \<and> categories st' = filter (\<lambda>c. c \<noteq> name) (categories st)
       \<and> name \<notin> set (categories st')
       \<and> (case encrypt pf (vault_payload st') (usv_string (masterPassword st)) salt iv of
             Inl e \<Rightarrow>
               fst (deleteCategory pf name salt iv st) = Inl e \<and> localStorage st' = localStorage st
           | Inr blob \<Rightarrow>
               fst (deleteCategory pf name salt iv st) = Inr ()
               \<and> localStorage st' = (localStorage st)(''encryptedData'' \<mapsto> blob))"
proof -
  let ?moved = "map (\<lambda>p. if prop_get p ''category'' = Str name
                         then p(''category'' \<mapsto> Str ''Other'') else p) (passwords st)"
  let ?st1 = "st\<lparr>passwords := ?moved, categories := filter (\<lambda>c. c \<noteq> name) (categories st)\<rparr>"
  have call: "deleteCategory pf name salt iv st = saveData pf salt iv ?st1"
    by (simp add: deleteCategory_def Let_def)
  have mem: "passwords st' = ?moved" "categories st' = filter (\<lambda>c. c \<noteq> name) (categories st)"
    using assms(3) by (simp_all add: call)
  have payload: "vault_payload st' = vault_payload ?st1"
    using assms(3) by (simp add: call)
  have stored: "(case encrypt pf (vault_payload st') (usv_string (masterPassword st)) salt iv of
             Inl e \<Rightarrow>
               fst (deleteCategory pf name salt iv st) = Inl e \<and> localStorage st' = localStorage st
           | Inr blob \<Rightarrow>
               fst (deleteCategory pf name salt iv st) = Inr ()
               \<and> localStorage st' = (localStorage st)(''encryptedData'' \<mapsto> blob))"
    using saveData_result [where st = ?st1 and pf = pf and salt = salt and iv = iv] assms(3)
    by (simp add: call payload split: sum.splits)
  from assms(1,2) mem stored show ?thesis
    by (simp add: prop_get_upd)
qed

theorem deleteCategory_reassigns_witness:
  "prop_get (passwords example_vault ! 0) ''category'' = Str ''Banking''
   \<and> passwords (snd (deleteCategory demo ''Banking'' demo_salt demo_iv example_vault)) ! 0
       = bank_record(''category'' \<mapsto> Str ''Other'')
   \<and> passwords (snd (deleteCategory demo ''Banking'' demo_salt demo_iv example_vault)) ! 1
       = example_record
   \<and> categories (snd (deleteCategory demo ''Banking'' demo_salt demo_iv example_vault))
       = [''Personal'', ''Work'', ''Social Media'', ''Shopping'', ''Other'', ''Clinic'']"
  using deleteCategory_reassigns [of 0 example_vault "''Banking''" _ demo demo_salt demo_iv, OF _ _ refl]
  by (simp add: example_vault_simps bank_record_simps example_record_simps)


section \<open>Setup\<close>

text \<open>
  Claim C7.  For every passphrase shorter than 8, \<^verbatim>\<open>setupMasterPassword\<close> raises the
  weak-password error and leaves the whole state as it was, whatever the platform: no
  hash and no blob is written, no key is derived.
\<close>

theorem setupMasterPassword_rejects_short:
  assumes "length password < 8"
  shows "setupMasterPassword pf password salt iv tid st = (Inl WeakPasswordError, st)"
  using assms by (simp add: setupMasterPassword_def)

theorem setupMasterPassword_rejects_short_witness:
  "length ''short'' < 8
   \<and> setupMasterPassword demo ''short'' demo_salt demo_iv 1 constructor
       = (Inl WeakPasswordError, constructor)
   \<and> localStorage constructor ''masterPasswordHash'' = None"
  using setupMasterPassword_rejects_short [of "''short''" demo demo_salt demo_iv 1 constructor]
  by (simp add: constructor_def)

text \<open>
  With eight characters or more, and a hash and a vault within the argument limit, the
  setup goes through: the hash and the encrypted vault are stored and the manager is
  unlocked.
\<close>

lemma setupMasterPassword_accepts:
  assumes "8 \<le> length password"
      and "hashPassword pf password = Inr hash"
      and "encrypt pf (vault_payload st) password salt iv = Inr blob"
      and "st' = snd (setupMasterPassword pf password salt iv tid st)"
  shows "fst (setupMasterPassword pf password salt iv tid st) = Inr ()
       \<and> localStorage st' ''masterPasswordHash'' = Some hash
       \<and> localStorage st' ''encryptedData'' = Some blob
       \<and> masterPassword st' = Some password \<and> \<not> isLocked st' \<and> sessionTimeout st' = Some tid"
  using assms
  by (simp add: setupMasterPassword_def Let_def startSessionTimeout_def clearSessionTimeout_def
      showMainApp_def saveData_def vault_payload_def usv_string_def split: option.split)


section \<open>The session\<close>

text \<open>
  Claim C5, as amended.  \<^verbatim>\<open>lock()\<close> leaves the manager locked, with no master
  passphrase, an empty record list and no stored timer handle; the timer of the stored
  handle is no longer pending; the login screen shows.  The category list and
  \<open>localStorage\<close> are kept as they were.
\<close>

theorem lock_clears_session:
  "isLocked (lock st) \<and> masterPassword (lock st) = None \<and> passwords (lock st) = []
   \<and> sessionTimeout (lock st) = None
   \<and> timers (lock st) = (case sessionTimeout st of None \<Rightarrow> timers st | Some t \<Rightarrow> timers st - {t})
   \<and> screen (lock st) = LoginScreen
   \<and> categories (lock st) = categories st
   \<and> localStorage (lock st) = localStorage st"
  by (simp add: lock_def showLoginScreen_def clearSessionTimeout_def split: option.split)

theorem lock_clears_session_witness:
  "\<not> isLocked example_vault \<and> isLocked (lock example_vault) \<and> passwords (lock example_vault) = []
   \<and> masterPassword (lock example_vault) = None \<and> timers (lock example_vault) = {}"
  using lock_clears_session [of example_vault] by (simp add: example_vault_simps)

text \<open>
  Claim C5 as stated fails: the category list is part of the vault, and after
  \<^verbatim>\<open>lock()\<close> it is neither empty nor the list of the constructor; the category
  \<^verbatim>\<open>'Clinic'\<close> the user added is still in memory.
\<close>

theorem lock_keeps_categories_counterexample:
  "categories (lock example_vault) \<noteq> [] \<and> categories (lock example_vault) \<noteq> categories constructor
   \<and> ''Clinic'' \<in> set (categories (lock example_vault))"
  by (simp add: lock_def showLoginScreen_def clearSessionTimeout_def example_vault_def constructor_def)

section \<open>The category invariant\<close>

lemma category_invariant_saveData [simp]:
  "category_invariant (snd (saveData pf salt iv st)) = category_invariant st"
  by (simp add: category_invariant_def)

lemma invariant_deletePassword:
  "category_invariant st \<Longrightarrow> category_invariant (snd (deletePassword pf ident salt iv st))"
  by (simp add: deletePassword_def Let_def) (simp add: category_invariant_def)

lemma invariant_addCategory:
  "category_invariant st \<Longrightarrow> category_invariant (snd (addCategory pf name salt iv st))"
  by (simp add: addCategory_def) (auto simp: category_invariant_def)

lemma invariant_deleteCategory:
  assumes "category_invariant st" and "name \<noteq> ''Other''" and "''Other'' \<in> set (categories st)"
  shows "category_invariant (snd (deleteCategory pf name salt iv st))"
proof -
  let ?f = "\<lambda>p. if prop_get p ''category'' = Str name then p(''category'' \<mapsto> Str ''Other'') else p"
  have "\<exists>c \<in> set (filter (\<lambda>c. c \<noteq> name) (categories st)). prop_get q ''category'' = Str c"
    if "q \<in> set (map ?f (passwords st))" for q
  proof -
    from that obtain p where p: "p \<in> set (passwords st)" "q = ?f p"
      by auto
    show ?thesis
    proof (cases "prop_get p ''category'' = Str name")
      case True
      with assms(2,3) p(2) show ?thesis by (auto simp: prop_get_upd)
    next
      case False
      from assms(1) p(1) obtain c where "c \<in> set (categories st)" "prop_get p ''category'' = Str c"
        by (auto simp: category_invariant_def)
      with False p(2) show ?thesis by auto
    qed
  qed
  then have "category_invariant
      (st\<lparr>passwords := map ?f (passwords st), categories := filter (\<lambda>c. c \<noteq> name) (categories st)\<rparr>)"
    unfolding category_invariant_def by simp
  then show ?thesis
    by (simp add: deleteCategory_def Let_def)
qed

lemma new_record_category:
  "prop_get (new_record pd idstr created modified) ''category'' =
     or_else (prop_get pd ''category'') (Str ''Other'')"
  by (simp add: new_record_def prop_get_def)

lemma invariant_addPassword:
  assumes "category_invariant st"
      and "or_else (prop_get pd ''category'') (Str ''Other'') = Str c" and "c \<in> set (categories st)"
  shows "category_invariant (snd (addPassword pf pd idstr created modified salt iv st))"
  using assms by (simp add: addPassword_state) (auto simp: category_invariant_def new_record_category)

lemma invariant_updatePassword:
  assumes "category_invariant st"
      and "updates ''category'' = None \<or> (\<exists>c \<in> set (categories st). updates ''category'' = Some (Str c))"
  shows "category_invariant (snd (updatePassword pf ident updates modified salt iv st))"
proof (cases "findIndex (\<lambda>p. prop_get p ''id'' = Str ident) (passwords st)")
  case None
  with assms(1) show ?thesis by (simp add: updatePassword_def)
next
  case (Some i)
  then have i: "i < length (passwords st)" by (simp add: findIndex_Some)
  let ?m = "((passwords st ! i) ++ updates)(''lastModified'' \<mapsto> Str modified)"
  from assms(1) nth_mem [OF i] obtain c0 where c0: "c0 \<in> set (categories st)"
      "prop_get (passwords st ! i) ''category'' = Str c0"
    by (auto simp: category_invariant_def)
  have m: "\<exists>c \<in> set (categories st). prop_get ?m ''category'' = Str c"
    using assms(2) c0 by (auto simp: prop_get_def map_add_def split: option.splits)
  have "\<exists>c \<in> set (categories st). prop_get p ''category'' = Str c"
    if "p \<in> set ((passwords st)[i := ?m])" for p
    using that m assms(1) set_update_subset_insert [of "passwords st" i ?m]
    by (auto simp: category_invariant_def)
  with Some show ?thesis
    by (simp add: updatePassword_def Let_def) (simp add: category_invariant_def)
qed

text \<open>
  Claim C3, as amended.  The invariant (the category of every record is a name of the
  category list) is kept by \<^verbatim>\<open>deletePassword\<close> and \<^verbatim>\<open>addCategory\<close> always; by
  \<^verbatim>\<open>deleteCategory(name)\<close> when \<open>name\<close> is not the fallback \<^verbatim>\<open>'Other'\<close> and \<^verbatim>\<open>'Other'\<close>
  is in the list; by \<^verbatim>\<open>addPassword(fields)\<close> when the category of \<open>fields\<close> (or
  \<^verbatim>\<open>'Other'\<close>, when it is falsy) is in the list; by \<^verbatim>\<open>updatePassword(id, updates)\<close> when
  \<open>updates\<close> has no category or one of the list.
\<close>

theorem category_invariant_preserved:
  assumes "category_invariant st"
  shows "category_invariant (snd (deletePassword pf ident salt iv st))
       \<and> category_invariant (snd (addCategory pf added salt iv st))
       \<and> (name \<noteq> ''Other'' \<and> ''Other'' \<in> set (categories st)
            \<longrightarrow> category_invariant (snd (deleteCategory pf name salt iv st)))
       \<and> ((\<exists>c \<in> set (categories st). or_else (prop_get pd ''category'') (Str ''Other'') = Str c)
            \<longrightarrow> category_invariant (snd (addPassword pf pd idstr created modified salt iv st)))
       \<and> (updates ''category'' = None \<or> (\<exists>c \<in> set (categories st). updates ''category'' = Some (Str c))
            \<longrightarrow> category_invariant (snd (updatePassword pf ident updates modified salt iv st)))"
  using assms
  by (blast intro: invariant_deletePassword invariant_addCategory invariant_deleteCategory
      invariant_addPassword invariant_updatePassword)

lemma example_vault_invariant: "category_invariant example_vault"
  by (simp add: category_invariant_def example_vault_simps example_record_simps bank_record_simps)

theorem category_invariant_preserved_witness:
  "category_invariant example_vault
   \<and> category_invariant (snd (deletePassword demo ''1700000000000'' demo_salt demo_iv example_vault))
   \<and> category_invariant (snd (addCategory demo ''Travel'' demo_salt demo_iv example_vault))
   \<and> category_invariant (snd (deleteCategory demo ''Banking'' demo_salt demo_iv example_vault))
   \<and> category_invariant (snd (addPassword demo [''name'' \<mapsto> Str ''Mail'', ''category'' \<mapsto> Str ''Work'']
         ''1700000000002'' ''t1'' ''t2'' demo_salt demo_iv example_vault))
   \<and> category_invariant (snd (updatePassword demo ''1700000000000'' [''category'' \<mapsto> Str ''Clinic'']
         ''t3'' demo_salt demo_iv example_vault))"
  using category_invariant_preserved [OF example_vault_invariant,
      where pf = demo and ident = "''1700000000000''" and salt = demo_salt and iv = demo_iv
        and name = "''Banking''" and added = "''Travel''" and pd = "[''name'' \<mapsto> Str ''Mail'', ''category'' \<mapsto> Str ''Work'']"
        and idstr = "''1700000000002''" and created = "''t1''" and modified = "''t2''"
        and updates = "[''category'' \<mapsto> Str ''Clinic'']"]
    category_invariant_preserved [OF example_vault_invariant,
      where pf = demo and ident = "''1700000000000''" and salt = demo_salt and iv = demo_iv
        and name = "''Banking''" and updates = "[''category'' \<mapsto> Str ''Clinic'']" and modified = "''t3''"]
  by (simp add: example_vault_invariant example_vault_simps prop_get_upd prop_get_empty or_else_def)

text \<open>
  Claim C3 as stated fails.  From a vault that has the invariant, deleting the fallback
  category leaves the record of the category \<^verbatim>\<open>'Other'\<close> without a category of the
  list, and adding a record with the category \<^verbatim>\<open>'Travel'\<close>, which is not in the
  list, stores it as given.
\<close>

theorem category_invariant_counterexample:
  "category_invariant example_vault
   \<and> \<not> category_invariant (snd (deleteCategory demo ''Other'' demo_salt demo_iv example_vault))
   \<and> \<not> category_invariant (snd (addPassword demo [''name'' \<mapsto> Str ''Mail'', ''category'' \<mapsto> Str ''Travel'']
             ''1700000000002'' ''t1'' ''t2'' demo_salt demo_iv example_vault))"
  by (simp add: example_vault_invariant deleteCategory_def addPassword_state Let_def)
     (simp add: category_invariant_def example_vault_simps example_record_simps bank_record_simps
        new_record_category prop_get_upd prop_get_empty or_else_def)

section \<open>Updating and deleting records\<close>

text \<open>
  Claim C6, as amended.  When \<open>ident\<close> is the id of a record (\<open>i\<close> is the first
  position with this id), \<^verbatim>\<open>updatePassword(ident, updates)\<close> keeps the \<^verbatim>\<open>id\<close> of the
  record when \<open>updates\<close> has no property \<^verbatim>\<open>id\<close>, keeps its \<^verbatim>\<open>createdDate\<close> when
  \<open>updates\<close> has no property \<^verbatim>\<open>createdDate\<close>, sets \<^verbatim>\<open>lastModified\<close> to the current
  time, and changes no other record.
\<close>

theorem updatePassword_frame:
  assumes "findIndex (\<lambda>p. prop_get p ''id'' = Str ident) (passwords st) = Some i"
      and "st' = snd (updatePassword pf ident updates modified salt iv st)"
  shows "i < length (passwords st) \<and> prop_get (passwords st ! i) ''id'' = Str ident
       \<and> length (passwords st') = length (passwords st)
       \<and> (updates ''id'' = None \<longrightarrow> prop_get (passwords st' ! i) ''id'' = Str ident)
       \<and> (updates ''createdDate'' = None \<longrightarrow>
            prop_get (passwords st' ! i) ''createdDate'' = prop_get (passwords st ! i) ''createdDate'')
       \<and> prop_get (passwords st' ! i) ''lastModified'' = Str modified
       \<and> (\<forall>j < length (passwords st). j \<noteq> i \<longrightarrow> passwords st' ! j = passwords st ! j)"
proof -
  from findIndex_Some [OF assms(1)]
  have i: "i < length (passwords st)" and id: "prop_get (passwords st ! i) ''id'' = Str ident"
    by simp_all
  have st': "passwords st' =
      (passwords st)[i := ((passwords st ! i) ++ updates)(''lastModified'' \<mapsto> Str modified)]"
    using assms by (simp add: updatePassword_def Let_def)
  show ?thesis
    using i id by (simp add: st' prop_get_upd prop_get_add)
qed

theorem updatePassword_frame_witness:
  "prop_get (passwords example_vault ! 1) ''id'' = Str ''1700000000000''
   \<and> prop_get (passwords (snd (updatePassword demo ''1700000000000''
        [''name'' \<mapsto> Str ''Renamed'', ''notes'' \<mapsto> Str ''n''] ''2024-01-01T00:00:00.000Z''
        demo_salt demo_iv example_vault)) ! 1) ''id'' = Str ''1700000000000''
   \<and> prop_get (passwords (snd (updatePassword demo ''1700000000000''
        [''name'' \<mapsto> Str ''Renamed'', ''notes'' \<mapsto> Str ''n''] ''2024-01-01T00:00:00.000Z''
        demo_salt demo_iv example_vault)) ! 1) ''createdDate'' = Str ''2023-11-14T22:13:20.000Z''
   \<and> prop_get (passwords (snd (updatePassword demo ''1700000000000''
        [''name'' \<mapsto> Str ''Renamed'', ''notes'' \<mapsto> Str ''n''] ''2024-01-01T00:00:00.000Z''
        demo_salt demo_iv example_vault)) ! 1) ''lastModified'' = Str ''2024-01-01T00:00:00.000Z''"
  using updatePassword_frame [where st = example_vault and ident = "''1700000000000''" and i = 1
      and pf = demo and updates = "[''name'' \<mapsto> Str ''Renamed'', ''notes'' \<mapsto> Str ''n'']"
      and modified = "''2024-01-01T00:00:00.000Z''" and salt = demo_salt and iv = demo_iv, OF _ refl]
  by (simp add: example_vault_simps example_record_simps bank_record_simps)

text \<open>
  Claim C6 as stated fails: the properties of \<open>updates\<close> are spread over the record, so
  an \<^verbatim>\<open>id\<close> and a \<^verbatim>\<open>createdDate\<close> among them replace the record's.
\<close>

theorem updatePassword_overwrites_id_counterexample:
  "prop_get (passwords example_vault ! 1) ''id'' = Str ''1700000000000''
   \<and> prop_get (passwords example_vault ! 1) ''createdDate'' = Str ''2023-11-14T22:13:20.000Z''
   \<and> prop_get (passwords (snd (updatePassword demo ''1700000000000''
        [''id'' \<mapsto> Str ''42'', ''createdDate'' \<mapsto> Str ''never''] ''2024-01-01T00:00:00.000Z''
        demo_salt demo_iv example_vault)) ! 1) ''id'' = Str ''42''
   \<and> prop_get (passwords (snd (updatePassword demo ''1700000000000''
        [''id'' \<mapsto> Str ''42'', ''createdDate'' \<mapsto> Str ''never''] ''2024-01-01T00:00:00.000Z''
        demo_salt demo_iv example_vault)) ! 1) ''createdDate'' = Str ''never''"
  by (simp add: updatePassword_def Let_def example_vault_simps example_record_simps bank_record_simps
      prop_get_upd prop_get_add)


lemma deletePassword_absent:
  assumes "\<forall>p \<in> set (passwords st). prop_get p ''id'' \<noteq> Str ident"
  shows "deletePassword pf ident salt iv st = saveData pf salt iv st"
proof -
  from assms have "filter (\<lambda>p. prop_get p ''id'' \<noteq> Str ident) (passwords st) = passwords st"
    by (simp add: filter_id_conv)
  then show ?thesis
    by (simp add: deletePassword_def Let_def)
qed

lemma deletePassword_removes:
  "\<forall>p \<in> set (passwords (snd (deletePassword pf ident salt iv st))). prop_get p ''id'' \<noteq> Str ident"
  by (simp add: deletePassword_def Let_def)

text \<open>
  What holds of a missing id in every state.  \<^verbatim>\<open>updatePassword\<close> returns without an
  error and changes nothing.  \<^verbatim>\<open>deletePassword\<close> does what \<^verbatim>\<open>saveData\<close> does: it keeps every
  field in memory, and it raises exactly when \<^verbatim>\<open>encrypt\<close> raises.  A second
  \<^verbatim>\<open>deletePassword\<close> of any id is again just \<^verbatim>\<open>saveData\<close>.
\<close>

lemma missing_id_is_absorbed:
  "((\<forall>p \<in> set (passwords st). prop_get p ''id'' \<noteq> Str ident) \<longrightarrow>
       updatePassword pf ident updates modified salt iv st = (Inr (), st)
     \<and> deletePassword pf ident salt iv st = saveData pf salt iv st)
   \<and> deletePassword pf ident salt2 iv2 (snd (deletePassword pf ident salt iv st))
       = saveData pf salt2 iv2 (snd (deletePassword pf ident salt iv st))
   \<and> (snd (saveData pf salt iv st))\<lparr>localStorage := ls\<rparr> = st\<lparr>localStorage := ls\<rparr>
   \<and> (case encrypt pf (vault_payload st) (usv_string (masterPassword st)) salt iv of
         Inl e \<Rightarrow> saveData pf salt iv st = (Inl e, st)
       | Inr blob \<Rightarrow>
           saveData pf salt iv st
             = (Inr (), st\<lparr>localStorage := (localStorage st)(''encryptedData'' \<mapsto> blob)\<rparr>))"
proof -
  have "updatePassword pf ident updates modified salt iv st = (Inr (), st)"
    if "\<forall>p \<in> set (passwords st). prop_get p ''id'' \<noteq> Str ident"
  proof -
    from that have "findIndex (\<lambda>p. prop_get p ''id'' = Str ident) (passwords st) = None"
      by (simp add: findIndex_None)
    then show ?thesis
      by (simp add: updatePassword_def)
  qed
  moreover have "deletePassword pf ident salt2 iv2 (snd (deletePassword pf ident salt iv st))
       = saveData pf salt2 iv2 (snd (deletePassword pf ident salt iv st))"
    by (rule deletePassword_absent [OF deletePassword_removes])
  ultimately show ?thesis
    using saveData_result [where pf = pf and st = st and salt = salt and iv = iv]
    by (simp add: deletePassword_absent saveData_memory)
qed


section \<open>Search\<close>

lemma take_length_eq_iff: "take (length t) xs = t \<longleftrightarrow> (\<exists>post. xs = t @ post)"
proof
  assume "take (length t) xs = t"
  then have "xs = t @ drop (length t) xs"
    by (metis append_take_drop_id)
  then show "\<exists>post. xs = t @ post" ..
next
  assume "\<exists>post. xs = t @ post"
  then show "take (length t) xs = t" by auto
qed

lemma str_includes_iff: "str_includes s t \<longleftrightarrow> (\<exists>pre post. s = pre @ t @ post)"
proof (induction s)
  case Nil
  show ?case by auto
next
  case (Cons c s)
  have "(\<exists>pre post. c # s = pre @ t @ post) \<longleftrightarrow>
        (\<exists>post. c # s = t @ post) \<or> (\<exists>pre post. s = pre @ t @ post)"
  proof
    assume "\<exists>pre post. c # s = pre @ t @ post"
    then obtain pre post where eq: "c # s = pre @ t @ post" by blast
    show "(\<exists>post. c # s = t @ post) \<or> (\<exists>pre post. s = pre @ t @ post)"
    proof (cases pre)
      case Nil
      with eq show ?thesis by auto
    next
      case (Cons a pre')
      with eq have "s = pre' @ t @ post" by simp
      then show ?thesis by blast
    qed
  next
    assume "(\<exists>post. c # s = t @ post) \<or> (\<exists>pre post. s = pre @ t @ post)"
    then show "\<exists>pre post. c # s = pre @ t @ post"
    proof
      assume "\<exists>post. c # s = t @ post"
      then obtain post where "c # s = [] @ t @ post" by auto
      then show ?thesis by blast
    next
      assume "\<exists>pre post. s = pre @ t @ post"
      then obtain pre post where "c # s = (c # pre) @ t @ post" by auto
      then show ?thesis by blast
    qed
  qed
  with Cons.IH show ?case
    by (simp add: take_length_eq_iff del: take_Suc_Cons)
qed

lemma ci_substring_Str: "ci_substring query (Str s) = str_includes (toLowerCase s) (toLowerCase query)"
  by (simp add: ci_substring_def str_includes_iff)

lemma field_includes_Str:
  "prop_get p k = Str s \<Longrightarrow>
     field_includes p k (toLowerCase query) = Inr (ci_substring query (prop_get p k))"
  by (simp add: field_includes_def ci_substring_Str)

lemma any_field_text:
  assumes "text_fields p"
  shows "any_field p [''name'', ''website'', ''username'', ''category''] (toLowerCase query)
           = Inr (spec_matches query p)"
proof -
  from assms obtain n w u c where f: "prop_get p ''name'' = Str n" "prop_get p ''website'' = Str w"
      "prop_get p ''username'' = Str u" "prop_get p ''category'' = Str c"
    by (auto simp: text_fields_def)
  show ?thesis
    by (simp add: field_includes_Str [OF f(1)] field_includes_Str [OF f(2)]
        field_includes_Str [OF f(3)] field_includes_Str [OF f(4)] spec_matches_def
        split: bool.split)
qed

lemma filter_raising_total:
  "\<forall>x \<in> set xs. P x = Inr (Q x) \<Longrightarrow> filter_raising P xs = Inr (filter Q xs)"
  by (induction xs) simp_all

lemma str_includes_empty: "str_includes s []"
  by (cases s) simp_all

lemma spec_matches_empty: "text_fields p \<Longrightarrow> spec_matches [] p"
  by (auto simp: text_fields_def spec_matches_def ci_substring_Str toLowerCase_def str_includes_empty)

lemma searchPasswords_spec_search:
  assumes "\<forall>p \<in> set (passwords st). text_fields p"
  shows "searchPasswords st query category =
           Inr (spec_search st query (if category = Some [] then None else category))"
proof -
  define cat where "cat = (if category = Some [] then None else category)"
  define results where "results = filter (spec_in_category cat) (passwords st)"
  have results: "(case category of None \<Rightarrow> passwords st
        | Some c \<Rightarrow> if c \<noteq> [] \<and> c \<noteq> ''All''
                    then filter (\<lambda>p. prop_get p ''category'' = Str c) (passwords st)
                    else passwords st) = results"
    by (cases category) (auto simp: results_def cat_def spec_in_category_def intro: filter_cong)
  have typed: "\<forall>p \<in> set results. text_fields p"
    using assms by (simp add: results_def)
  have spec: "spec_search st query cat = filter (spec_matches query) results"
    by (simp add: spec_search_def results_def conj_commute)
  show ?thesis
  proof (cases "query = []")
    case True
    with typed have "filter (spec_matches query) results = results"
      by (simp add: filter_id_conv spec_matches_empty)
    with spec have "spec_search st query cat = results"
      by simp
    with True show ?thesis
      unfolding cat_def [symmetric] by (simp add: searchPasswords_def results)
  next
    case False
    have "filter_raising
            (\<lambda>p. any_field p [''name'', ''website'', ''username'', ''category''] (toLowerCase query))
            results = Inr (filter (spec_matches query) results)"
      using typed by (intro filter_raising_total ballI any_field_text) blast
    with False spec show ?thesis
      unfolding cat_def [symmetric] by (simp add: searchPasswords_def results)
  qed
qed

lemma lower_examples:
  "toLowerCase ''bank'' = ''bank''"
  "toLowerCase ''Savings'' = ''savings''"
  "toLowerCase ''MyBank.com'' = ''mybank.com''"
  "toLowerCase ''Banking'' = ''banking''"
  "toLowerCase ''Example'' = ''example''"
  "toLowerCase ''Other'' = ''other''"
  "toLowerCase [] = []"
  by code_simp+

lemma example_text_fields: "\<forall>p \<in> set (passwords example_vault). text_fields p"
  by (simp add: example_vault_simps text_fields_def example_record_simps bank_record_simps)

lemma example_matches:
  "spec_matches ''bank'' bank_record" "\<not> spec_matches ''bank'' example_record"
  by (simp_all add: spec_matches_def ci_substring_Str example_record_simps bank_record_simps lower_examples)

text \<open>
  Claim C8, as amended.  For every vault whose records have string \<^verbatim>\<open>name\<close>,
  \<^verbatim>\<open>website\<close>, \<^verbatim>\<open>username\<close> and \<^verbatim>\<open>category\<close> fields, every query and every category
  filter, \<^verbatim>\<open>searchPasswords\<close> raises nothing and returns the search of the
  specification, in which an empty filter is read as an absent one: the records, in the
  order of the record list, one of whose four fields contains the query as a
  case-insensitive substring, restricted to the category of the filter unless the filter
  is \<^verbatim>\<open>"All"\<close>, empty or absent.  \<open>searchPasswords\<close> is a function of the state that
  returns no new state: it assigns no field and stores nothing.
\<close>

theorem searchPasswords_refines_spec:
  assumes "\<forall>p \<in> set (passwords st). text_fields p"
  shows "searchPasswords st query category =
           Inr (spec_search st query (if category = Some [] then None else category))"
  using assms by (rule searchPasswords_spec_search)

theorem searchPasswords_refines_spec_witness:
  "searchPasswords example_vault ''bank'' (Some ''All'') = Inr [bank_record]
   \<and> spec_search example_vault ''bank'' (Some ''All'') = [bank_record]"
  using searchPasswords_refines_spec [OF example_text_fields, of "''bank''" "Some ''All''"]
  by (simp add: spec_search_def spec_in_category_def example_vault_simps example_matches)

text \<open>
  Claim C8 as stated fails for the empty string as category filter: it is a filter that
  is neither \<^verbatim>\<open>"All"\<close> nor absent, and no record has the empty category, yet
  \<^verbatim>\<open>searchPasswords\<close> does not restrict the result.
\<close>

theorem searchPasswords_empty_filter_counterexample:
  "searchPasswords example_vault ''bank'' (Some []) = Inr [bank_record]
   \<and> spec_search example_vault ''bank'' (Some []) = []"
proof -
  have "searchPasswords example_vault ''bank'' (Some []) = Inr (spec_search example_vault ''bank'' None)"
    using searchPasswords_spec_search [OF example_text_fields, of "''bank''" "Some []"] by simp
  then show ?thesis
    by (simp add: spec_search_def spec_in_category_def example_vault_simps example_matches
        example_record_simps bank_record_simps)
qed

text \<open>
  Without a string in a searched field the search raises: a record made by
  \<^verbatim>\<open>addPassword\<close> from fields without a name has the name \<^verbatim>\<open>undefined\<close>.
\<close>

lemma searchPasswords_raises_without_name:
  "searchPasswords (example_vault\<lparr>passwords := [new_record Map.empty ''1'' ''t'' ''t'']\<rparr>) ''bank'' None
     = Inl TypeError"
  by (simp add: searchPasswords_def field_includes_def new_record_def prop_get_def)

section \<open>Base64 and the cipher\<close>

lemma b64_sextets_length:
  "length (b64_sextets ns) mod 4 = (if length ns mod 3 = 0 then 0 else length ns mod 3 + 1)"
proof (induction ns rule: b64_sextets.induct)
  case (1 a b c r)
  have "length (b64_sextets (a # b # c # r)) = 4 + length (b64_sextets r)" by simp
  moreover have "length (a # b # c # r) mod 3 = length r mod 3" by simp
  ultimately show ?case using 1 by simp
qed simp_all

lemma b64_sextets_Nil: "b64_sextets ns = [] \<longleftrightarrow> ns = []"
  by (induction ns rule: b64_sextets.induct) simp_all

lemma split_high: "x < k \<Longrightarrow> (m * k + x) div k = (m::nat)"
  by simp

lemma split_low: "x < k \<Longrightarrow> (m * k + x) mod k = (x::nat)"
  by simp

lemma b64_octets_sextets:
  "\<forall>n \<in> set ns. n < 256 \<Longrightarrow> b64_octets (b64_sextets ns) = ns"
proof (induction ns rule: b64_sextets.induct)
  case (1 a b c r)
  from 1(2) have "b < 16 * 16" and "c < 4 * 64" by simp_all
  then have b: "b div 16 < 16" and c: "c div 64 < 4"
    by (simp_all only: less_mult_imp_div_less)
  have "b64_octets (b64_sextets (a # b # c # r)) =
        [a div 4 * 4 + a mod 4, b div 16 * 16 + b mod 16, c div 64 * 64 + c mod 64]
          @ b64_octets (b64_sextets r)"
    using b c by (simp add: split_high split_low)
  with 1 show ?case by simp
next
  case (2 a b)
  then have "b < 16 * 16" by simp
  then have b: "b div 16 < 16"
    by (simp only: less_mult_imp_div_less)
  have "b64_octets (b64_sextets [a, b]) = [a div 4 * 4 + a mod 4, b div 16 * 16 + b mod 16]"
    using b by (simp add: split_high split_low)
  then show ?case by simp
next
  case (3 a)
  have "b64_octets (b64_sextets [a]) = [a div 4 * 4 + a mod 4]"
    by simp
  then show ?case by simp
next
  case 4
  show ?case by simp
qed


lemma b64val_b64chr: "i < 64 \<Longrightarrow> b64val (b64chr i) = Some i"
proof -
  have "\<forall>i < 64. b64val (b64_alphabet ! i) = Some i"
    unfolding b64_alphabet_def b64val_def Let_def
    by (simp add: All_less_Suc2 numeral_eq_Suc del: upt_Suc)
  then show "i < 64 \<Longrightarrow> b64val (b64chr i) = Some i"
    by (simp add: b64chr_def)
qed

lemma b64val_whitespace: "is_ascii_whitespace c \<Longrightarrow> b64val c = None"
  by (auto simp: is_ascii_whitespace_def b64val_def Let_def)

lemma b64val_pad: "b64val (CHR ''='') = None"
  by (simp add: b64val_def)

lemma b64_sextets_bound:
  "\<forall>n \<in> set ns. n < 256 \<Longrightarrow> \<forall>v \<in> set (b64_sextets ns). v < 64"
proof (induction ns rule: b64_sextets.induct)
  case (1 a b c r)
  from 1(2) have a: "a < 256" and b: "b < 256" and c: "c < 256" by simp_all
  have "a div 4 < 64" using a by arith
  moreover have "(a mod 4) * 16 + b div 16 < 64" using b by arith
  moreover have "(b mod 16) * 4 + c div 64 < 64" using c by arith
  moreover have "c mod 64 < 64" by simp
  ultimately show ?case using 1 by simp
next
  case (2 a b)
  then have a: "a < 256" and b: "b < 256" by simp_all
  have "a div 4 < 64" using a by arith
  moreover have "(a mod 4) * 16 + b div 16 < 64" using b by arith
  moreover have "(b mod 16) * 4 < 64" by arith
  ultimately show ?case by simp
next
  case (3 a)
  then have a: "a < 256" by simp
  have "a div 4 < 64" using a by arith
  moreover have "(a mod 4) * 16 < 64" by arith
  ultimately show ?case by simp
next
  case 4
  show ?case by simp
qed

lemma those_map_Some: "those (map Some xs) = Some xs"
  by (induction xs) simp_all

lemma those_b64val_b64chr:
  "\<forall>v \<in> set vs. v < 64 \<Longrightarrow> those (map b64val (map b64chr vs)) = Some vs"
proof -
  assume "\<forall>v \<in> set vs. v < 64"
  then have "map b64val (map b64chr vs) = map Some vs"
    by (simp add: b64val_b64chr)
  then show ?thesis
    by (simp only: those_map_Some)
qed

lemma strip_padding_body:
  assumes "CHR ''='' \<notin> set body" and "k \<le> 2"
  shows "strip_padding (body @ replicate k (CHR ''='')) = body"
proof -
  have last: "body \<noteq> [] \<Longrightarrow> last body \<noteq> CHR ''=''"
    using assms(1) last_in_set by metis
  from assms(2) consider "k = 0" | "k = 1" | "k = 2" by arith
  then show ?thesis
  proof cases
    case 1
    with last show ?thesis by (auto simp: strip_padding_def)
  next
    case 2
    with last show ?thesis by (auto simp: strip_padding_def)
  next
    case 3
    then have "replicate k (CHR ''='') = [CHR ''='', CHR ''='']"
      by (simp add: numeral_2_eq_2)
    then show ?thesis
      by (simp add: strip_padding_def butlast_append)
  qed
qed

lemma atob_btoa: "atob (btoa s) = Some s"
proof -
  define ns where "ns = map (of_char :: char \<Rightarrow> nat) s"
  define vs where "vs = b64_sextets ns"
  define body where "body = map b64chr vs"
  define k where "k = (3 - length s mod 3) mod 3"
  have ns: "\<forall>n \<in> set ns. n < 256"
    by (auto simp: ns_def)
  then have vs: "\<forall>v \<in> set vs. v < 64"
    unfolding vs_def by (rule b64_sextets_bound)
  have body_val: "\<forall>c \<in> set body. b64val c \<noteq> None"
    using vs by (auto simp: body_def b64val_b64chr)
  have btoa: "btoa s = body @ replicate k (CHR ''='')"
    by (simp add: btoa_def body_def vs_def ns_def k_def)
  have no_pad: "CHR ''='' \<notin> set body"
    using body_val b64val_pad by auto
  have no_ws: "\<forall>c \<in> set (body @ replicate k (CHR ''='')). \<not> is_ascii_whitespace c"
    using body_val b64val_whitespace by (auto simp: is_ascii_whitespace_def)
  then have filtered: "filter (\<lambda>c. \<not> is_ascii_whitespace c) (btoa s) = body @ replicate k (CHR ''='')"
    unfolding btoa by (simp only: filter_True)
  have len_body: "length body mod 4 = (if length s mod 3 = 0 then 0 else length s mod 3 + 1)"
    using b64_sextets_length [of ns] by (simp add: body_def vs_def ns_def)
  have "k \<le> 2" by (simp add: k_def)
  have "length s mod 3 = 0 \<or> length s mod 3 = 1 \<or> length s mod 3 = 2" by arith
  then have "length body mod 4 = 0 \<and> k = 0 \<or> length body mod 4 = 2 \<and> k = 2
      \<or> length body mod 4 = 3 \<and> k = 1"
    using len_body by (auto simp: k_def)
  then have len: "(length body + k) mod 4 = 0" and not1: "length body mod 4 \<noteq> 1"
    by presburger+
  have stripped: "strip_padding (body @ replicate k (CHR ''='')) = body"
    using no_pad \<open>k \<le> 2\<close> by (rule strip_padding_body)
  have decoded: "those (map b64val body) = Some vs"
    unfolding body_def using vs by (rule those_b64val_b64chr)
  have octets: "b64_octets vs = ns"
    unfolding vs_def using ns by (rule b64_octets_sextets)
  have "map char_of ns = s"
    by (simp add: ns_def map_idI)
  then show ?thesis
    using len not1 by (simp add: atob_def filtered stripped decoded octets)
qed

lemma charCode_of_byte: "word_of_nat (unat b mod 256) = (b :: byte)"
proof -
  have "unat b < 256"
    using unsigned_less [of b, where ?'a = nat] by simp
  then show ?thesis
    by simp
qed

lemma charCodes_fromCharCode: "charCodes (fromCharCode bs) = bs"
  by (simp add: charCodes_def fromCharCode_def charCode_of_byte comp_def)

lemma decrypt_btoa:
  "decrypt pf (btoa (fromCharCode bs)) password =
     (case aes_gcm_decrypt pf (deriveKey pf password (take 16 bs)) (take 12 (drop 16 bs)) (drop 28 bs) of
        None \<Rightarrow> Inl DecryptionError
      | Some decrypted \<Rightarrow>
          (case json_parse pf (utf8_decode pf decrypted) of
             None \<Rightarrow> Inl DecryptionError
           | Some v \<Rightarrow> Inr v))"
  by (simp add: decrypt_def atob_btoa charCodes_fromCharCode Let_def)

lemma encrypt_blob:
  assumes "encrypt pf data w salt iv = Inr blob"
  shows "blob = btoa (fromCharCode (salt @ iv @ aes_gcm_encrypt pf (deriveKey pf w salt) iv
           (utf8_encode pf (case json_stringify pf data of None \<Rightarrow> [] | Some s \<Rightarrow> s))))"
  using assms
  by (simp add: encrypt_def Let_def fromCharCode_spread_def split: if_splits)

lemma encrypt_raises:
  "encrypt pf data w salt iv = Inl e \<longleftrightarrow>
     e = RangeError \<and>
     max_arguments pf < length salt + length iv + length (aes_gcm_encrypt pf (deriveKey pf w salt) iv
           (utf8_encode pf (case json_stringify pf data of None \<Rightarrow> [] | Some s \<Rightarrow> s)))"
  by (auto simp: encrypt_def Let_def fromCharCode_spread_def)

lemma decrypt_encrypt:
  assumes "length salt = 16" and "length iv = 12" and "encrypt pf data w salt iv = Inr blob"
  shows "decrypt pf blob w' =
     (case aes_gcm_decrypt pf (deriveKey pf w' salt) iv
             (aes_gcm_encrypt pf (deriveKey pf w salt) iv
                (utf8_encode pf (case json_stringify pf data of None \<Rightarrow> [] | Some s \<Rightarrow> s))) of
        None \<Rightarrow> Inl DecryptionError
      | Some decrypted \<Rightarrow>
          (case json_parse pf (utf8_decode pf decrypted) of
             None \<Rightarrow> Inl DecryptionError
           | Some v \<Rightarrow> Inr v))"
  using assms(1,2) by (simp add: encrypt_blob [OF assms(3)] decrypt_btoa)

section \<open>The round trip\<close>

lemma demo_simps:
  "utf8_encode demo = charCodes" "utf8_decode demo = fromCharCode"
  "json_stringify demo = demo_stringify" "json_parse demo = demo_parse"
  "pbkdf2_sha256 demo = demo_kdf" "aes_gcm_encrypt demo = demo_encrypt"
  "aes_gcm_decrypt demo = demo_decrypt" "max_arguments demo = 125000"
  by (simp_all add: demo_def)

lemma replicate_num: "replicate (numeral k) x = x # replicate (pred_numeral k) x"
  by (simp add: numeral_eq_Suc)

lemma demo_lengths: "length demo_salt = 16" "length demo_iv = 12"
  by (simp_all add: demo_salt_def demo_iv_def)

lemma demo_decrypt_encrypt: "demo_decrypt k iv (demo_encrypt k iv' pt) = Some pt"
  by (simp add: demo_decrypt_def demo_encrypt_def comp_def)

lemma length_demo_encrypt: "length (demo_encrypt k iv pt) = length pt + 16"
  by (simp add: demo_encrypt_def)

lemma length_charCodes: "length (charCodes s) = length s"
  by (simp add: charCodes_def)

lemma example_bytes:
  "demo_salt @ demo_iv @ demo_encrypt (deriveKey demo ''CorrectHorse1'' demo_salt) demo_iv (charCodes ''[]'')
     = [1, 2, 3, 4, 5, 6, 7, 8, 9, 10, 11, 12, 13, 14, 15, 16,
        21, 22, 23, 24, 25, 26, 27, 28, 29, 30, 31, 32,
        105, 107, 14, 14, 14, 14, 14, 14, 14, 14, 14, 14, 14, 14, 14, 14, 14, 14]"
  by (simp add: deriveKey_def demo_simps demo_kdf_def demo_encrypt_def demo_salt_def demo_iv_def
      charCodes_def replicate_num)

lemma example_blob:
  "encrypt demo (Arr []) ''CorrectHorse1'' demo_salt demo_iv =
     Inr ''AQIDBAUGBwgJCgsMDQ4PEBUWFxgZGhscHR4fIGlrDg4ODg4ODg4ODg4ODg4ODg==''"
  apply (simp add: encrypt_def Let_def demo_simps example_bytes fromCharCode_spread_def
      demo_lengths length_demo_encrypt length_charCodes)
  apply (simp add: fromCharCode_def btoa_def b64chr_def b64_alphabet_def replicate_num)
  done

lemma fromCharCode_charCodes: "fromCharCode (charCodes s) = s"
proof -
  have "char_of (unat (word_of_nat (of_char c) :: byte)) = c" for c
    by (simp add: unat_of_nat)
  then show ?thesis
    by (simp add: fromCharCode_def charCodes_def comp_def)
qed

lemma btoa_Nil: "btoa s = [] \<longleftrightarrow> s = []"
  by (cases s) (simp_all add: btoa_def b64_sextets_Nil)

text \<open>
  The round trip, for a payload that could be encrypted: when \<^verbatim>\<open>encrypt(P, W)\<close> returns a
  blob, \<open>P\<close> is JSON-serializable and the platform's AES-GCM, UTF-8 and JSON functions
  invert each other on it, \<^verbatim>\<open>decrypt\<close> of the blob with \<open>W\<close> returns \<open>P\<close>.
\<close>

lemma encrypt_decrypt_roundtrip:
  assumes "length salt = 16" and "length iv = 12"
      and "encrypt pf P W salt iv = Inr blob"
      and "json_stringify pf P = Some json"
      and "utf8_decode pf (utf8_encode pf json) = json"
      and "json_parse pf json = Some P"
      and "aes_gcm_decrypt pf (deriveKey pf W salt) iv
             (aes_gcm_encrypt pf (deriveKey pf W salt) iv (utf8_encode pf json))
           = Some (utf8_encode pf json)"
  shows "decrypt pf blob W = Inr P"
  using assms(4-7) by (simp add: decrypt_encrypt [OF assms(1-3)])

lemma roundtrip_example:
  "decrypt demo ''AQIDBAUGBwgJCgsMDQ4PEBUWFxgZGhscHR4fIGlrDg4ODg4ODg4ODg4ODg4ODg=='' ''CorrectHorse1''
     = Inr (Arr [])"
  by (rule encrypt_decrypt_roundtrip [where json = "''[]''", OF demo_lengths example_blob])
     (simp_all add: demo_simps demo_decrypt_encrypt fromCharCode_charCodes demo_parse_def)

text \<open>
  Claim C1 fails on the code.  The string of 200000 letters is JSON-serializable (the
  platform writes it and reads it back), but \<^verbatim>\<open>encrypt\<close> returns no blob for it: the
  bytes \<^verbatim>\<open>salt || nonce || ciphertext\<close> are more than the engine accepts as arguments of
  \<^verbatim>\<open>String.fromCharCode\<close>, and the call raises.
\<close>

theorem encrypt_raises_on_large_payload:
  "json_stringify demo (Str big_notes) = Some (quoted big_notes)
   \<and> json_parse demo (quoted big_notes) = Some (Str big_notes)
   \<and> encrypt demo (Str big_notes) ''CorrectHorse1'' demo_salt demo_iv = Inl RangeError"
proof -
  have "json_stringify demo (Str big_notes) = Some (quoted big_notes)"
    by (simp add: demo_simps)
  moreover have "json_parse demo (quoted big_notes) = Some (Str big_notes)"
    by (simp add: demo_simps demo_parse_def quoted_def big_notes_def)
  moreover have "encrypt demo (Str big_notes) ''CorrectHorse1'' demo_salt demo_iv = Inl RangeError"
    by (simp add: encrypt_raises demo_simps demo_lengths length_demo_encrypt length_charCodes
        quoted_def big_notes_def)
  ultimately show ?thesis by simp
qed

section \<open>A vault too large to store\<close>

lemma length_concat_member: "x \<in> set xs \<Longrightarrow> length (f x) \<le> length (concat (map f xs))"
  by (induction xs) auto

lemma length_demo_record: "prop_get p ''notes'' = Str s \<Longrightarrow> length s \<le> length (demo_record (Obj p))"
  by (simp add: record_keys_def quoted_def)

lemma vault_text_long:
  assumes "p \<in> set (passwords st)" and "prop_get p ''notes'' = Str s"
  shows "\<exists>json. demo_stringify (vault_payload st) = Some json \<and> length s \<le> length json"
proof -
  have "length s \<le> length (demo_record (Obj p))"
    using assms(2) by (rule length_demo_record)
  also have "\<dots> \<le> length (concat (map demo_record (map Obj (passwords st))))"
    using assms(1) by (intro length_concat_member) simp
  finally show ?thesis
    by (simp add: vault_payload_def)
qed

lemma large_vault_not_stored:
  assumes "p \<in> set (passwords st)" and "prop_get p ''notes'' = Str s" and "125000 \<le> length s"
  shows "saveData demo salt iv st = (Inl RangeError, st)"
proof -
  from vault_text_long [OF assms(1,2)] obtain json
    where json: "demo_stringify (vault_payload st) = Some json" "length s \<le> length json"
    by blast
  with assms(3) have "encrypt demo (vault_payload st) (usv_string (masterPassword st)) salt iv
      = Inl RangeError"
    by (simp add: encrypt_raises demo_simps length_demo_encrypt length_charCodes)
  then show ?thesis
    by (simp add: saveData_def)
qed

lemma big_record_notes:
  "prop_get (new_record big_fields i c m) ''notes'' = Str big_notes" "125000 \<le> length big_notes"
  by (simp_all add: new_record_def big_fields_def prop_get_def or_else_def big_notes_def)

lemma big_vault_state:
  "addPassword demo big_fields ''1700000000002'' ''2023-11-14T22:13:20.002Z''
      ''2023-11-14T22:13:20.002Z'' demo_salt demo_iv example_vault = (Inl RangeError, big_vault)"
  "passwords big_vault =
     [new_record big_fields ''1700000000002'' ''2023-11-14T22:13:20.002Z'' ''2023-11-14T22:13:20.002Z'',
      bank_record, example_record]"
proof -
  let ?r = "new_record big_fields ''1700000000002'' ''2023-11-14T22:13:20.002Z''
      ''2023-11-14T22:13:20.002Z''"
  let ?st1 = "example_vault\<lparr>passwords := ?r # passwords example_vault\<rparr>"
  have save: "saveData demo demo_salt demo_iv ?st1 = (Inl RangeError, ?st1)"
    by (rule large_vault_not_stored [where p = ?r, OF _ big_record_notes]) simp
  then have add: "addPassword demo big_fields ''1700000000002'' ''2023-11-14T22:13:20.002Z''
      ''2023-11-14T22:13:20.002Z'' demo_salt demo_iv example_vault = (Inl RangeError, ?st1)"
    by (simp add: addPassword_def Let_def)
  then have big: "big_vault = ?st1"
    by (simp add: big_vault_def)
  from add big show "addPassword demo big_fields ''1700000000002'' ''2023-11-14T22:13:20.002Z''
      ''2023-11-14T22:13:20.002Z'' demo_salt demo_iv example_vault = (Inl RangeError, big_vault)"
    by simp
  have "passwords ?st1 = [?r, bank_record, example_record]"
    by (simp add: example_vault_simps)
  then show "passwords big_vault = [?r, bank_record, example_record]"
    by (simp only: big)
qed

text \<open>
  Claim C9 fails on the code.  After \<^verbatim>\<open>addPassword\<close> with notes of 200000 characters
  (which itself raises, the record staying in memory) no record has the id
  \<^verbatim>\<open>'nobody'\<close>; \<^verbatim>\<open>updatePassword\<close> of that id is a silent no-op, but
  \<^verbatim>\<open>deletePassword\<close> of it raises: it stores the vault again, and \<^verbatim>\<open>encrypt\<close> raises
  on a vault of that size.
\<close>

theorem deletePassword_raises_on_large_vault:
  "addPassword demo big_fields ''1700000000002'' ''2023-11-14T22:13:20.002Z''
      ''2023-11-14T22:13:20.002Z'' demo_salt demo_iv example_vault = (Inl RangeError, big_vault)
   \<and> map (\<lambda>p. prop_get p ''id'') (passwords big_vault)
       = [Str ''1700000000002'', Str ''1700000000001'', Str ''1700000000000'']
   \<and> updatePassword demo ''nobody'' [''name'' \<mapsto> Str ''x''] ''2023-11-14T22:13:21.000Z'' demo_salt demo_iv big_vault
       = (Inr (), big_vault)
   \<and> deletePassword demo ''nobody'' demo_salt demo_iv big_vault = (Inl RangeError, big_vault)"
proof -
  have ids: "map (\<lambda>p. prop_get p ''id'') (passwords big_vault)
       = [Str ''1700000000002'', Str ''1700000000001'', Str ''1700000000000'']"
    by (simp add: big_vault_state example_record_simps bank_record_simps)
       (simp add: new_record_def prop_get_def)
  then have absent: "\<forall>p \<in> set (passwords big_vault). prop_get p ''id'' \<noteq> Str ''nobody''"
    by (simp add: big_vault_state)
  have "saveData demo demo_salt demo_iv big_vault = (Inl RangeError, big_vault)"
    by (rule large_vault_not_stored [where p = "new_record big_fields ''1700000000002''
          ''2023-11-14T22:13:20.002Z'' ''2023-11-14T22:13:20.002Z''", OF _ big_record_notes])
       (simp add: big_vault_state)
  with missing_id_is_absorbed [where st = big_vault and ident = "''nobody''" and pf = demo
      and updates = "[''name'' \<mapsto> Str ''x'']" and modified = "''2023-11-14T22:13:21.000Z''"
      and salt = demo_salt and iv = demo_iv, THEN conjunct1, THEN mp, OF absent]
    ids big_vault_state(1)
  show ?thesis by simp
qed

section \<open>Wrong passphrases and changed bytes\<close>













text \<open>
  For a blob that decodes as base64, \<^verbatim>\<open>decrypt\<close> fails with the decryption error exactly
  when the platform's AEAD verification of the decoded salt, nonce and ciphertext fails
  under the key derived from the passphrase, or the decrypted bytes are not JSON.
\<close>

lemma decrypt_error_iff:
  assumes "atob blob = Some bin"
  shows "decrypt pf blob W = Inl DecryptionError \<longleftrightarrow>
     (case aes_gcm_decrypt pf (deriveKey pf W (take 16 (charCodes bin)))
             (take 12 (drop 16 (charCodes bin))) (drop 28 (charCodes bin)) of
        None \<Rightarrow> True
      | Some decrypted \<Rightarrow> json_parse pf (utf8_decode pf decrypted) = None)"
  using assms by (simp add: decrypt_def Let_def split: option.split)








text \<open>
  The blob of the empty array under the first platform, with one bit of its last
  character before the padding flipped, decodes to the bytes of the blob itself.
\<close>

lemma tampered_blob_decodes:
  "atob ''AQIDBAUGBwgJCgsMDQ4PEBUWFxgZGhscHR4fIGlrDg4ODg4ODg4ODg4ODg4ODo=='' =
     Some (fromCharCode (demo_salt @ demo_iv
        @ demo_encrypt (deriveKey demo ''CorrectHorse1'' demo_salt) demo_iv (charCodes ''[]'')))"
  apply (simp add: example_bytes)
  apply (simp add: atob_def is_ascii_whitespace_def strip_padding_def b64val_def Let_def fromCharCode_def)
  done

lemma example_blob_bytes:
  "''AQIDBAUGBwgJCgsMDQ4PEBUWFxgZGhscHR4fIGlrDg4ODg4ODg4ODg4ODg4ODg=='' =
     btoa (fromCharCode (demo_salt @ demo_iv
        @ demo_encrypt (deriveKey demo ''CorrectHorse1'' demo_salt) demo_iv (charCodes ''[]'')))"
  using encrypt_blob [OF example_blob] by (simp add: demo_simps)

text \<open>
  It therefore decrypts, on every platform and under every passphrase, to what the blob
  itself decrypts to.
\<close>

lemma unused_bits_ignored:
  "decrypt pf (''AQIDBAUGBwgJCgsMDQ4PEBUWFxgZGhscHR4fIGlrDg4ODg4ODg4ODg4ODg4ODg==''[61 := CHR ''o'']) W
     = decrypt pf ''AQIDBAUGBwgJCgsMDQ4PEBUWFxgZGhscHR4fIGlrDg4ODg4ODg4ODg4ODg4ODg=='' W"
proof -
  let ?bs = "demo_salt @ demo_iv
        @ demo_encrypt (deriveKey demo ''CorrectHorse1'' demo_salt) demo_iv (charCodes ''[]'')"
  have changed: "''AQIDBAUGBwgJCgsMDQ4PEBUWFxgZGhscHR4fIGlrDg4ODg4ODg4ODg4ODg4ODg==''[61 := CHR ''o''] =
      ''AQIDBAUGBwgJCgsMDQ4PEBUWFxgZGhscHR4fIGlrDg4ODg4ODg4ODg4ODg4ODo==''"
    by simp
  have "decrypt pf ''AQIDBAUGBwgJCgsMDQ4PEBUWFxgZGhscHR4fIGlrDg4ODg4ODg4ODg4ODg4ODo=='' W
      = decrypt pf (btoa (fromCharCode ?bs)) W"
    unfolding decrypt_def tampered_blob_decodes atob_btoa ..
  then have "decrypt pf ''AQIDBAUGBwgJCgsMDQ4PEBUWFxgZGhscHR4fIGlrDg4ODg4ODg4ODg4ODg4ODo=='' W
      = decrypt pf ''AQIDBAUGBwgJCgsMDQ4PEBUWFxgZGhscHR4fIGlrDg4ODg4ODg4ODg4ODg4ODg=='' W"
    by (simp only: example_blob_bytes [symmetric])
  then show ?thesis
    by (simp only: changed)
qed


text \<open>
  A changed character outside the base64 alphabet fails in \<^verbatim>\<open>atob\<close>, before the
  \<^verbatim>\<open>try\<close> block, with the error of \<^verbatim>\<open>atob\<close>, for every platform and passphrase.
\<close>

lemma invalid_base64_example:
  "decrypt pf (''AQIDBAUGBwgJCgsMDQ4PEBUWFxgZGhscHR4fIGlrDg4ODg4ODg4ODg4ODg4ODg==''[0 := CHR 0xBE]) W
     = Inl InvalidCharacterError"
  by (simp add: decrypt_def atob_def is_ascii_whitespace_def strip_padding_def b64val_def Let_def)

section \<open>Reload\<close>

text \<open>
  Claim C10.  When \<^verbatim>\<open>loadData\<close> finds a blob and decrypts it to an object: if the
  object has no \<^verbatim>\<open>passwords\<close> property, or a falsy one, the record list becomes empty;
  if it has no \<^verbatim>\<open>categories\<close> property, or a falsy one, the category list in memory
  is kept; with both, nothing is raised and nothing else changes.
\<close>

theorem loadData_defaults:
  assumes "localStorage st ''encryptedData'' = Some encrypted" and "encrypted \<noteq> []"
      and "decrypt pf encrypted (usv_string (masterPassword st)) = Inr (Obj data)"
  shows "(\<not> truthy (prop_get data ''passwords'') \<longrightarrow> passwords (snd (loadData pf st)) = [])
       \<and> (\<not> truthy (prop_get data ''categories'') \<longrightarrow>
            categories (snd (loadData pf st)) = categories st)
       \<and> (\<not> truthy (prop_get data ''passwords'') \<and> \<not> truthy (prop_get data ''categories'') \<longrightarrow>
            loadData pf st = (Inr (), st\<lparr>passwords := []\<rparr>))"
  using assms
  by (auto simp: loadData_def or_else_def Let_def split: option.splits sum.splits)

lemma empty_object_encrypts:
  "encrypt demo (Obj Map.empty) ''CorrectHorse1'' demo_salt demo_iv = Inr empty_object_blob"
proof (cases "encrypt demo (Obj Map.empty) ''CorrectHorse1'' demo_salt demo_iv")
  case (Inl e)
  then show ?thesis
    by (simp add: encrypt_raises demo_simps demo_lengths length_demo_encrypt length_charCodes)
next
  case (Inr blob)
  then show ?thesis
    by (simp add: empty_object_blob_def)
qed

theorem loadData_defaults_witness:
  "loadData demo stored_vault = (Inr (), stored_vault\<lparr>passwords := []\<rparr>)
   \<and> passwords stored_vault = [bank_record, example_record]
   \<and> categories (snd (loadData demo stored_vault)) = categories example_vault"
proof -
  have stored: "localStorage stored_vault ''encryptedData'' = Some empty_object_blob"
    by (simp add: stored_vault_def)
  have "fromCharCode (demo_salt @ bs) \<noteq> []" for bs
    by (simp add: fromCharCode_def demo_salt_def)
  then have nonempty: "empty_object_blob \<noteq> []"
    by (simp only: encrypt_blob [OF empty_object_encrypts] btoa_Nil not_False_eq_True)
  have "decrypt demo empty_object_blob ''CorrectHorse1'' = Inr (Obj Map.empty)"
    by (simp add: decrypt_encrypt [OF demo_lengths empty_object_encrypts] demo_simps
        demo_decrypt_encrypt fromCharCode_charCodes demo_parse_def)
  then have decrypted: "decrypt demo empty_object_blob (usv_string (masterPassword stored_vault))
      = Inr (Obj Map.empty)"
    by (simp add: stored_vault_def example_vault_simps usv_string_def)
  from loadData_defaults [OF stored nonempty decrypted]
  show ?thesis
    by (simp add: prop_get_empty stored_vault_def example_vault_simps)
qed

end
